theory Spec2Isabelle
  imports Main
begin

section \<open>Data model (contracts.go, cloudenv.go)\<close>

text \<open>
  The package \<open>cargo\<close> runs the nodes of a cluster as containers. The files
  cloudenv.go and docker.go hold two revisions of the package; the model follows the
  later one, which has the variable repositories, the \<open>Stopped\<close> flags and the
  marker files.

  A Go \<open>error\<close> value; \<open>nil\<close> is \<open>None\<close> of \<open>error option\<close>.
  \<open>errorStartTimeout\<close> is the package variable of docker.go, \<open>ExitError\<close> the
  error built by \<open>runCommands\<close> (exit code and command text), \<open>AtoiError\<close> the
  error of \<open>strconv.Atoi\<close> on the text given, \<open>OSError\<close> any other error handed
  back by the operating system or by the container engine, \<open>NotExist\<close> and \<open>Exist\<close>
  the errors that \<open>os.IsNotExist\<close> and \<open>os.IsExist\<close> recognise.
\<close>

datatype error =
    errorStartTimeout
  | ExitError int string
  | AtoiError string
  | OSError string
  | NotExist
  | Exist

text \<open>
  The cluster definition (contracts.go): \<open>DockerProperties\<close>, \<open>Commands\<close> and
  \<open>Node\<close>, with the prefixes \<open>dp_\<close>, \<open>cmd_\<close> and \<open>node_\<close> on the fields.
  \<open>cmd_Shell\<close> is the field \<open>Shell\<close> that \<open>runCommands\<close> reads.
\<close>

record DockerProperties =
  dp_Entrypoint :: string
  dp_Cmd :: "string list"
  dp_Env :: "string list"
  dp_Privileged :: bool
  dp_Volumes :: "string list"

record Commands =
  cmd_Shell :: string
  cmd_Commands :: "string list"

record Node =
  node_Name :: string
  node_Instances :: nat
  node_Image :: string
  node_Docker :: DockerProperties
  node_Commands :: "string \<rightharpoonup> Commands"

text \<open>
  \<open>InstanceState\<close> and \<open>NodeState\<close> of cloudenv.go. Record fields are global
  names in HOL, so the fields of the two structs carry the prefixes \<open>is_\<close> and
  \<open>ns_\<close>. The back pointers (\<open>NodeState\<close>, \<open>State\<close>) are left out: a node is
  identified by its position in \<open>Nodes\<close>, an instance by its position in
  \<open>Instances\<close>. \<open>ns_Logger\<close> is the field \<open>Logger\<close> of a node state, an interface
  value: \<open>None\<close> is nil, \<open>Some name\<close> the logger that \<open>NewLogger(name)\<close> made. What
  the loggers print is not modelled. The \<open>Logger\<close> of an instance state is assigned on
  the first lines of \<open>InstanceState.run\<close>, from the node's logger, before any use, so
  it needs no field.
\<close>

record InstanceState =
  is_Index :: nat
  is_ContainerId :: string
  is_LocalVars :: "string \<rightharpoonup> string"
  is_Error :: "error option"
  is_Stopped :: bool
  is_cidfile :: string

record NodeState =
  ns_Node :: Node
  ns_Image :: string
  ns_LocalVars :: "string \<rightharpoonup> string"
  ns_DockerArgs :: "string list"
  ns_Instances :: "InstanceState list"
  ns_Error :: "error option"
  ns_Stopped :: bool
  ns_Logger :: "string option"

text \<open>The name of a node state's definition, \<open>ns.Node.Name\<close>.\<close>

definition ns_Name :: "NodeState \<Rightarrow> string" where
  "ns_Name ns = node_Name (ns_Node ns)"

text \<open>
  \<open>CloudEnv\<close>, with the cluster's name for \<open>Cluster\<close>, and the run flags.
\<close>

record CloudEnv =
  ce_ClusterName :: string
  ce_DataDir :: string
  ce_RunFlags :: nat

definition Create :: nat where "Create = 0x0001"
definition Prepare :: nat where "Prepare = 0x0002"
definition Run :: nat where "Run = 0x0004"
definition Detach :: nat where "Detach = 0x0008"
definition Stop :: nat where "Stop = 0x0010"
definition Remove :: nat where "Remove = 0x0020"

definition workspace :: string where "workspace = ''/.cargo.workspace''"
definition states :: string where "states = ''.cargo''"

section \<open>AnyError\<close>

text \<open>
  \<open>NodeState.AnyError\<close>: the loop over \<open>ns.Instances\<close> returns true at the first
  instance whose \<open>Error\<close> is not nil.
\<close>

fun instancesAnyError :: "InstanceState list \<Rightarrow> bool" where
  "instancesAnyError [] = False"
| "instancesAnyError (i # rest) =
     (if is_Error i \<noteq> None then True else instancesAnyError rest)"

definition NodeState_AnyError :: "NodeState \<Rightarrow> bool" where
  "NodeState_AnyError ns = instancesAnyError (ns_Instances ns)"

text \<open>
  \<open>CloudState.AnyError\<close>: the loop over \<open>cs.Nodes\<close> returns true at the first node
  whose own \<open>Error\<close> is not nil or whose \<open>AnyError()\<close> is true.
\<close>

fun CloudState_AnyError :: "NodeState list \<Rightarrow> bool" where
  "CloudState_AnyError [] = False"
| "CloudState_AnyError (n # rest) =
     (if ns_Error n \<noteq> None \<or> NodeState_AnyError n then True
      else CloudState_AnyError rest)"

section \<open>Text substitution (CloudState.Substitute)\<close>

text \<open>
  Go's \<open>text[a:b]\<close> on a string. It panics unless \<open>a \<le> b \<le> len(text)\<close>; every use
  below is within these bounds (\<open>FindAllStringIndex_bounds\<close>), where it is
  \<open>take (b - a) (drop a text)\<close>.
\<close>

definition slice :: "string \<Rightarrow> nat \<Rightarrow> nat \<Rightarrow> string" where
  "slice text a b = take (b - a) (drop a text)"

text \<open>
  \<open>varRegExp = regexp.MustCompilePOSIX("%\\([^()]+\\)")\<close>. The bracket expression
  \<open>[^()]\<close> is every character but the two parentheses and, as in every negated
  class of Go's POSIX syntax, the newline. \<open>varRegExp_match s\<close> is the length of the
  match that starts at the head of \<open>s\<close>. The run of class characters after \<open>%(\<close>
  cannot be shortened (no character of the run is a closing parenthesis), so the
  leftmost-longest match is the only one.
\<close>

definition varChar :: "char \<Rightarrow> bool" where
  "varChar c \<longleftrightarrow> c \<noteq> CHR ''('' \<and> c \<noteq> CHR '')'' \<and> c \<noteq> CHR 0x0A"

fun varRegExp_match :: "string \<Rightarrow> nat option" where
  "varRegExp_match (a # b # rest) =
     (if a = CHR ''%'' \<and> b = CHR ''('' then
        (case dropWhile varChar rest of
           [] \<Rightarrow> None
         | c # _ \<Rightarrow>
             if takeWhile varChar rest \<noteq> [] \<and> c = CHR '')''
             then Some (length (takeWhile varChar rest) + 3) else None)
      else None)"
| "varRegExp_match _ = None"

text \<open>
  \<open>varRegExp.FindAllStringIndex(text, -1)\<close>: the successive non-overlapping matches,
  each as the pair (start, end) of byte offsets, end exclusive. \<open>pos\<close> is the offset
  of the remaining text. After a match of length \<open>n\<close> the search resumes \<open>n\<close>
  characters further (a match is never empty).
\<close>

fun FindAllStringIndex_from :: "nat \<Rightarrow> string \<Rightarrow> (nat \<times> nat) list" where
  "FindAllStringIndex_from pos [] = []"
| "FindAllStringIndex_from pos (c # cs) =
     (case varRegExp_match (c # cs) of
        Some n \<Rightarrow> (pos, pos + n) # FindAllStringIndex_from (pos + n) (drop (n - 1) cs)
      | None \<Rightarrow> FindAllStringIndex_from (pos + 1) cs)"

definition FindAllStringIndex :: "string \<Rightarrow> (nat \<times> nat) list" where
  "FindAllStringIndex text = FindAllStringIndex_from 0 text"

text \<open>
  The body of \<open>Substitute\<close>. \<open>q\<close> is \<open>cs.vars.QueryVar(_, context)\<close>: the value and
  the \<open>exists\<close> flag it returns for a name. \<open>substLoop\<close> is the \<open>for ... range\<close> loop
  over the matches, threading \<open>result\<close> and \<open>curpos\<close>; note \<open>curpos = end + 1\<close>.
\<close>

fun substLoop ::
  "(string \<Rightarrow> string \<times> bool) \<Rightarrow> string \<Rightarrow> (nat \<times> nat) list \<Rightarrow> string \<Rightarrow> nat
     \<Rightarrow> string \<times> nat" where
  "substLoop q text [] result curpos = (result, curpos)"
| "substLoop q text ((start, end) # rest) result curpos =
     (let result1 = (if start > curpos then result @ slice text curpos start else result);
          curpos1 = end + 1;
          name = slice text (start + 2) (end - 1);
          result2 = (case q name of (val, exists) \<Rightarrow>
                       if exists then result1 @ val else result1)
      in substLoop q text rest result2 curpos1)"

definition Substitute :: "(string \<Rightarrow> string \<times> bool) \<Rightarrow> string \<Rightarrow> string" where
  "Substitute q text =
     (case substLoop q text (FindAllStringIndex text) [] 0 of
        (result, curpos) \<Rightarrow>
          if curpos < length text then result @ drop curpos text else result)"

section \<open>Go library functions used by the code\<close>

text \<open>
  \<open>strings.Index(s, sep)\<close> and \<open>strings.LastIndex(s, sep)\<close> for a separator of one
  character, as the code calls them (\<open>":"\<close> and \<open>"-"\<close>): the offset of the first
  (last) occurrence, or \<open>-1\<close>.
\<close>

fun strings_Index :: "string \<Rightarrow> char \<Rightarrow> int" where
  "strings_Index [] sep = -1"
| "strings_Index (c # cs) sep =
     (if c = sep then 0
      else (let i = strings_Index cs sep in if i < 0 then -1 else i + 1))"

fun strings_LastIndex :: "string \<Rightarrow> char \<Rightarrow> int" where
  "strings_LastIndex [] sep = -1"
| "strings_LastIndex (c # cs) sep =
     (let i = strings_LastIndex cs sep in
      if i \<ge> 0 then i + 1 else if c = sep then 0 else -1)"

text \<open>
  \<open>strconv.Atoi\<close>: an optional sign, then one or more decimal digits, and a value
  that fits the (64-bit) \<open>int\<close>; \<open>None\<close> is the error return.
\<close>

definition isDigit :: "char \<Rightarrow> bool" where
  "isDigit c \<longleftrightarrow> (48::nat) \<le> of_char c \<and> of_char c \<le> (57::nat)"

definition digitVal :: "char \<Rightarrow> int" where
  "digitVal c = int (of_char c) - 48"

fun parseDigits :: "int \<Rightarrow> string \<Rightarrow> int option" where
  "parseDigits n [] = Some n"
| "parseDigits n (c # cs) =
     (if isDigit c then parseDigits (n * 10 + digitVal c) cs else None)"

definition strconv_Atoi :: "string \<Rightarrow> int option" where
  "strconv_Atoi s =
     (let (neg, ds) = (case s of
                         c # cs \<Rightarrow> if c = CHR ''-'' then (True, cs)
                                   else if c = CHR ''+'' then (False, cs) else (False, s)
                       | [] \<Rightarrow> (False, s))
      in if ds = [] then None
         else (case parseDigits 0 ds of
                 None \<Rightarrow> None
               | Some n \<Rightarrow>
                   (let v = (if neg then - n else n)
                    in if - (2 ^ 63) \<le> v \<and> v < 2 ^ 63 then Some v else None)))"

text \<open>
  The \<open>path\<close> package. \<open>path.IsAbs\<close> tests for a leading slash. \<open>path.Clean\<close> is
  modelled on the elements between slashes: empty and \<open>.\<close> elements are dropped, a
  \<open>..\<close> element removes the element before it unless none is left, where it is
  dropped in a rooted path and kept otherwise; the empty result is \<open>.\<close>.
  \<open>cleanElems\<close> keeps the elements already written, last first. \<open>path.Join\<close>
  joins the elements from the first non-empty one on with slashes and cleans the result;
  it is the empty string when every element is empty.
\<close>

fun splitOn :: "char \<Rightarrow> string \<Rightarrow> string list" where
  "splitOn d [] = [[]]"
| "splitOn d (c # cs) =
     (if c = d then [] # splitOn d cs
      else (case splitOn d cs of
              w # ws \<Rightarrow> (c # w) # ws
            | [] \<Rightarrow> [[c]]))"

fun joinWith :: "string \<Rightarrow> string list \<Rightarrow> string" where
  "joinWith sep [] = []"
| "joinWith sep [x] = x"
| "joinWith sep (x # y # ys) = x @ sep @ joinWith sep (y # ys)"

definition path_IsAbs :: "string \<Rightarrow> bool" where
  "path_IsAbs p \<longleftrightarrow> (case p of [] \<Rightarrow> False | c # _ \<Rightarrow> c = CHR ''/'')"

fun cleanElems :: "bool \<Rightarrow> string list \<Rightarrow> string list \<Rightarrow> string list" where
  "cleanElems rooted out [] = out"
| "cleanElems rooted out (e # es) =
     (if e = [] \<or> e = ''.'' then cleanElems rooted out es
      else if e = ''..'' then
        (case out of
           [] \<Rightarrow> if rooted then cleanElems rooted out es
                 else cleanElems rooted [''..''] es
         | last_e # below \<Rightarrow>
             if last_e = ''..'' then cleanElems rooted (''..'' # out) es
             else cleanElems rooted below es)
      else cleanElems rooted (e # out) es)"

definition path_Clean :: "string \<Rightarrow> string" where
  "path_Clean p =
     (if p = [] then ''.''
      else (let rooted = path_IsAbs p;
                out = rev (cleanElems rooted [] (splitOn (CHR ''/'') p))
            in if rooted then ''/'' @ joinWith ''/'' out
               else if out = [] then ''.'' else joinWith ''/'' out))"

definition path_Join :: "string list \<Rightarrow> string" where
  "path_Join elem =
     (case dropWhile (\<lambda>e. e = []) elem of
        [] \<Rightarrow> []
      | rest \<Rightarrow> path_Clean (joinWith ''/'' rest))"

section \<open>Volume mappings (NodeState.run)\<close>

text \<open>
  The body of the loop over \<open>ns.Node.Docker.Volumes\<close>, from the substituted string
  \<open>volMap\<close> to the string appended after \<open>-v\<close>: split at the first colon when it is
  not at offset 0, resolve a source that is not absolute against \<open>cs.Env.DataDir\<close>.
\<close>

definition volumeMap :: "string \<Rightarrow> string \<Rightarrow> string" where
  "volumeMap dataDir volMap =
     (let pos = strings_Index volMap (CHR '':'') in
      if pos > 0 then
        (let src = take (nat pos) volMap;
             dst = drop (nat pos + 1) volMap;
             src1 = (if \<not> path_IsAbs src then path_Clean (path_Join [dataDir, src]) else src)
         in src1 @ '':'' @ dst)
      else volMap)"

section \<open>Variable repositories and the cross-reference provider\<close>

text \<open>
  \<open>localVars.QueryVar\<close> (variables.go): the value stored under the name and whether
  there is one; a missing key gives Go's zero values, the empty string and false.
\<close>

definition localVars_QueryVar :: "(string \<rightharpoonup> string) \<Rightarrow> string \<Rightarrow> string \<times> bool" where
  "localVars_QueryVar values name =
     (case values name of Some v \<Rightarrow> (v, True) | None \<Rightarrow> ('''', False))"

text \<open>
  \<open>VarContext\<close>. \<open>Cloud\<close> is represented by its \<open>Nodes\<close>; the pointers \<open>Node\<close> and
  \<open>Instance\<close> by the position of the node in \<open>Nodes\<close> and the pair of positions of the
  instance (nil is \<open>None\<close>), so that the pointer comparisons \<open>ns == ctx.Node\<close> and
  \<open>is == ctx.Instance\<close> are comparisons of positions.
\<close>

record VarContext =
  ctx_Nodes :: "NodeState list"
  ctx_Node :: "nat option"
  ctx_Instance :: "(nat \<times> nat) option"

text \<open>
  What a query of the cross-reference provider does (cluster.go): it returns
  \<open>(val, exists)\<close>, or it takes the activation lock and enters the wait loop on a
  node (\<open>queryNode\<close>) or on an instance (\<open>queryInstance\<close>) for a key. The wait loop
  itself is the subject of the section on the wait protocol.
\<close>

datatype query_result =
    Return string bool
  | WaitNode nat string
  | WaitInstance nat nat string

text \<open>\<open>findNode\<close>: the position of the first node with the name, \<open>None\<close> for nil.\<close>

fun findNode_from :: "nat \<Rightarrow> NodeState list \<Rightarrow> string \<Rightarrow> nat option" where
  "findNode_from i [] name = None"
| "findNode_from i (n # rest) name =
     (if ns_Name n = name then Some i else findNode_from (i + 1) rest name)"

definition findNode :: "VarContext \<Rightarrow> string \<Rightarrow> nat option" where
  "findNode ctx name = findNode_from 0 (ctx_Nodes ctx) name"

definition queryNode :: "VarContext \<Rightarrow> string \<Rightarrow> string \<Rightarrow> query_result" where
  "queryNode ctx ref key =
     (case findNode ctx ref of
        None \<Rightarrow> Return '''' False
      | Some n \<Rightarrow>
          (case localVars_QueryVar (ns_LocalVars (ctx_Nodes ctx ! n)) key of
             (val, exists) \<Rightarrow>
               if exists \<or> Some n = ctx_Node ctx then Return val exists
               else WaitNode n key))"

definition queryInstance :: "VarContext \<Rightarrow> string \<Rightarrow> string \<Rightarrow> query_result" where
  "queryInstance ctx ref key =
     (let pos = strings_LastIndex ref (CHR ''-'') in
      if pos \<le> 0 then Return '''' False
      else
        (case findNode ctx (take (nat pos) ref) of
           None \<Rightarrow> Return '''' False
         | Some n \<Rightarrow>
             (case strconv_Atoi (drop (nat pos + 1) ref) of
                None \<Rightarrow> Return '''' False
              | Some index \<Rightarrow>
                  if index < 0 \<or> index \<ge> int (length (ns_Instances (ctx_Nodes ctx ! n)))
                  then Return '''' False
                  else
                    (case localVars_QueryVar
                            (is_LocalVars (ns_Instances (ctx_Nodes ctx ! n) ! nat index)) key of
                       (val, exists) \<Rightarrow>
                         if exists \<or> Some (n, nat index) = ctx_Instance ctx
                         then Return val exists
                         else WaitInstance n (nat index) key))))"

text \<open>\<open>providerXref.QueryVar\<close>, registered for the prefixes \<open>instances\<close>, \<open>ip\<close>, \<open>mac\<close>.\<close>

definition providerXref_QueryVar :: "string \<Rightarrow> VarContext \<Rightarrow> query_result" where
  "providerXref_QueryVar name ctx =
     (let pos = strings_Index name (CHR '':'') in
      if pos \<le> 0 then Return '''' False
      else
        (let key = take (nat pos) name; ref = drop (nat pos + 1) name in
         if key = ''instances'' then queryNode ctx ref key
         else if key = ''ip'' \<or> key = ''mac'' then queryInstance ctx ref key
         else Return '''' False))"

text \<open>
  \<open>providerEnv.QueryVar\<close> (vars-env.go); \<open>getenv\<close> is \<open>os.Getenv\<close>, which gives the
  empty string for a variable that is not set.
\<close>

definition providerEnv_QueryVar :: "(string \<Rightarrow> string) \<Rightarrow> string \<Rightarrow> query_result" where
  "providerEnv_QueryVar getenv name =
     (if take 4 name = ''env:'' then Return (getenv (drop 4 name)) True
      else Return '''' True)"

text \<open>
  \<open>globalVars.QueryVar\<close>: the repository's own values first, then the provider
  registered under the text before the first colon. The registry holds \<open>env\<close>
  (vars-env.go) and \<open>instances\<close>, \<open>ip\<close>, \<open>mac\<close> (cluster.go).
\<close>

definition globalVars_QueryVar ::
  "(string \<rightharpoonup> string) \<Rightarrow> (string \<Rightarrow> string) \<Rightarrow> string \<Rightarrow> VarContext \<Rightarrow> query_result" where
  "globalVars_QueryVar values getenv name ctx =
     (case localVars_QueryVar values name of
        (val, exists) \<Rightarrow>
          if \<not> exists then
            (let pos = strings_Index name (CHR '':'') in
             if pos > 0 then
               (let prefix = take (nat pos) name in
                if prefix = ''env'' then providerEnv_QueryVar getenv name
                else if prefix = ''instances'' \<or> prefix = ''ip'' \<or> prefix = ''mac''
                then providerXref_QueryVar name ctx
                else Return val exists)
             else Return val exists)
          else Return val exists)"

section \<open>Example states\<close>

text \<open>Concrete definitions, instance and node states, used to evaluate the model.\<close>

definition ex_def :: "string \<Rightarrow> nat \<Rightarrow> Node" where
  "ex_def name n = \<lparr>node_Name = name, node_Instances = n, node_Image = ''img'',
     node_Docker = \<lparr>dp_Entrypoint = '''', dp_Cmd = [], dp_Env = [], dp_Privileged = False,
       dp_Volumes = []\<rparr>,
     node_Commands = Map.empty\<rparr>"

definition ex_instance :: "error option \<Rightarrow> InstanceState" where
  "ex_instance e = \<lparr>is_Index = 0, is_ContainerId = ''c0'', is_LocalVars = Map.empty,
     is_Error = e, is_Stopped = True, is_cidfile = ''''\<rparr>"

definition ex_node :: "string \<Rightarrow> error option \<Rightarrow> InstanceState list \<Rightarrow> NodeState" where
  "ex_node name e insts = \<lparr>ns_Node = ex_def name (length insts), ns_Image = ''img'',
     ns_LocalVars = Map.empty, ns_DockerArgs = [], ns_Instances = insts, ns_Error = e,
     ns_Stopped = True, ns_Logger = Some name\<rparr>"

text \<open>An activation of two nodes, \<open>web\<close> with two instances and \<open>db\<close> with one,
  seen from the instance of \<open>db\<close>.\<close>

definition ex_running :: "nat \<Rightarrow> (string \<rightharpoonup> string) \<Rightarrow> InstanceState" where
  "ex_running i vars = \<lparr>is_Index = i, is_ContainerId = ''c'', is_LocalVars = vars,
     is_Error = None, is_Stopped = False, is_cidfile = ''''\<rparr>"

definition ex_ctx :: VarContext where
  "ex_ctx = \<lparr>ctx_Nodes =
       [\<lparr>ns_Node = ex_def ''web'' 2, ns_Image = ''img'',
         ns_LocalVars = [''instances'' \<mapsto> ''2''], ns_DockerArgs = [],
         ns_Instances = [ex_running 0 [''ip'' \<mapsto> ''10.0.0.2''], ex_running 1 Map.empty],
         ns_Error = None, ns_Stopped = False, ns_Logger = Some ''web''\<rparr>,
        \<lparr>ns_Node = ex_def ''db'' 1, ns_Image = ''img'',
         ns_LocalVars = Map.empty, ns_DockerArgs = [],
         ns_Instances = [ex_running 0 Map.empty],
         ns_Error = None, ns_Stopped = False, ns_Logger = Some ''db''\<rparr>],
     ctx_Node = Some 1, ctx_Instance = Some (1, 0)\<rparr>"

section \<open>The container driver (docker.go)\<close>

text \<open>
  Everything the code asks of the operating system and of the container engine is an
  \<open>action\<close>: reading, writing and removing a file, creating a directory, running
  the \<open>docker\<close> executable with arguments and waiting for it (\<open>cmd.Run()\<close>),
  running it and capturing its output (\<open>cmd.Output()\<close>), launching it without waiting
  (\<open>cmd.Start()\<close>), registering the background wait on the activation's wait group,
  sleeping for a number of milliseconds, broadcasting on the condition variable,
  launching the task of an instance, and asking the image cache for an image. The
  \<open>trace\<close> is the list of the actions done so far, oldest first. The environment
  \<open>env\<close> answers an action from the trace before it: \<open>Inl\<close> an error, \<open>Inr\<close> the
  output (the file's content, the command's standard output, empty otherwise).
\<close>

datatype action =
    ReadFile string
  | WriteFile string string
  | RemoveFile string
  | MkdirAll string
  | CmdRun "string list"
  | CmdOutput "string list"
  | CmdStart "string list"
  | WaitGroupAdd
  | Sleep nat
  | Notify
  | LoadImage string
  | GoInstance nat

type_synonym trace = "action list"
type_synonym env = "trace \<Rightarrow> action \<Rightarrow> error + string"

definition call :: "env \<Rightarrow> action \<Rightarrow> trace \<Rightarrow> (error + string) \<times> trace" where
  "call env a tr = (env tr a, tr @ [a])"

definition errOf :: "error + string \<Rightarrow> error option" where
  "errOf r = (case r of Inl e \<Rightarrow> Some e | Inr _ \<Rightarrow> None)"

text \<open>\<open>strings.Trim(s, cutset)\<close>, and the cutset \<open>" \\n\\r\\t\\f"\<close> of docker.go.\<close>

definition strings_Trim :: "string \<Rightarrow> string \<Rightarrow> string" where
  "strings_Trim s cutset =
     rev (dropWhile (\<lambda>c. c \<in> set cutset) (rev (dropWhile (\<lambda>c. c \<in> set cutset) s)))"

definition whitespace :: string where
  "whitespace = [CHR '' '', CHR 0x0A, CHR 0x0D, CHR 0x09, CHR 0x0C]"

text \<open>\<open>cmdOutput\<close>: the trimmed standard output, or the error with empty output.\<close>

definition docker_cmdOutput :: "env \<Rightarrow> string list \<Rightarrow> trace \<Rightarrow> (string \<times> error option) \<times> trace" where
  "docker_cmdOutput env arg tr =
     (case call env (CmdOutput arg) tr of
        (Inl e, tr1) \<Rightarrow> (('''', Some e), tr1)
      | (Inr out, tr1) \<Rightarrow> ((strings_Trim out whitespace, None), tr1))"

definition docker_Inspect :: "env \<Rightarrow> string \<Rightarrow> string \<Rightarrow> trace \<Rightarrow> (string \<times> error option) \<times> trace" where
  "docker_Inspect env cid fmt tr = docker_cmdOutput env [''inspect'', ''-f'', fmt, cid] tr"

definition docker_isRunning :: "env \<Rightarrow> string \<Rightarrow> trace \<Rightarrow> (bool \<times> error option) \<times> trace" where
  "docker_isRunning env cid tr =
     (case docker_Inspect env cid ''{{.State.Running}}'' tr of
        ((running, err), tr1) \<Rightarrow> ((running = ''true'', err), tr1))"

definition docker_Pull :: "env \<Rightarrow> string \<Rightarrow> trace \<Rightarrow> error option \<times> trace" where
  "docker_Pull env img tr =
     (case call env (CmdRun [''pull'', img]) tr of (r, tr1) \<Rightarrow> (errOf r, tr1))"

definition docker_Stop :: "env \<Rightarrow> string \<Rightarrow> trace \<Rightarrow> error option \<times> trace" where
  "docker_Stop env cid tr =
     (case call env (CmdRun [''stop'', cid]) tr of (r, tr1) \<Rightarrow> (errOf r, tr1))"

definition docker_Remove :: "env \<Rightarrow> string \<Rightarrow> trace \<Rightarrow> error option \<times> trace" where
  "docker_Remove env cid tr =
     (case call env (CmdRun [''rm'', cid]) tr of (r, tr1) \<Rightarrow> (errOf r, tr1))"

definition docker_RmForce :: "env \<Rightarrow> string \<Rightarrow> trace \<Rightarrow> error option \<times> trace" where
  "docker_RmForce env cid tr =
     (case call env (CmdRun [''rm'', ''--force'', cid]) tr of (r, tr1) \<Rightarrow> (errOf r, tr1))"

definition docker_Exec :: "env \<Rightarrow> string \<Rightarrow> string list \<Rightarrow> trace \<Rightarrow> error option \<times> trace" where
  "docker_Exec env cid args tr =
     (case call env (CmdRun ([''exec'', cid] @ args)) tr of (r, tr1) \<Rightarrow> (errOf r, tr1))"

text \<open>
  \<open>docker.Create\<close>. \<open>createPrior\<close> is the part up to the removal of the marker
  file: it reads the marker file, asks whether the container it names is running,
  stops it if so, and gives the \<open>cid\<close> kept for later (empty when there is none or the
  inspection failed) and the arguments of the create command.
\<close>

definition createPrior ::
  "env \<Rightarrow> string \<Rightarrow> string list \<Rightarrow> trace \<Rightarrow> (string \<times> string list) \<times> trace" where
  "createPrior env cidfile cmdArgs tr =
     (case call env (ReadFile cidfile) tr of
        (r, tr1) \<Rightarrow>
          (let cid = (case r of Inr cidBytes \<Rightarrow> cidBytes | Inl _ \<Rightarrow> '''') in
           if cid \<noteq> '''' then
             (case docker_isRunning env cid tr1 of
                ((running, err), tr2) \<Rightarrow>
                  if err = None then
                    (let tr3 = (if running then snd (docker_Stop env cid tr2) else tr2)
                     in ((cid, cmdArgs @ [''--volumes-from='' @ cid]), tr3))
                  else (('''', cmdArgs), tr2))
           else ((cid, cmdArgs), tr1)))"

definition docker_Create ::
  "env \<Rightarrow> string \<Rightarrow> string list \<Rightarrow> trace \<Rightarrow> (string \<times> error option) \<times> trace" where
  "docker_Create env cidfile args tr =
     (case createPrior env cidfile ([''create'', ''--cidfile='' @ cidfile] @ args) tr of
        ((cid, cmdArgs), tr1) \<Rightarrow>
          (case call env (RemoveFile cidfile) tr1 of
             (r, tr2) \<Rightarrow>
               if errOf r \<noteq> None \<and> errOf r \<noteq> Some NotExist then (('''', errOf r), tr2)
               else
                 (case docker_cmdOutput env cmdArgs tr2 of
                    ((newCid, err), tr3) \<Rightarrow>
                      (let tr4 =
                         (if cid \<noteq> '''' then
                            (if err = None then snd (docker_RmForce env cid tr3)
                             else snd (call env (WriteFile cidfile cid) tr3))
                          else tr3)
                       in ((newCid, err), tr4)))))"

text \<open>
  \<open>docker.Start\<close>. \<open>attached\<close> is \<open>wg != nil\<close>. \<open>startPoll\<close> is the loop
  \<open>for i := 0; i < 8; i++\<close> from the value \<open>i\<close> on.
\<close>

function startPoll :: "env \<Rightarrow> string \<Rightarrow> nat \<Rightarrow> trace \<Rightarrow> error option \<times> trace" where
  "startPoll env cid i tr =
     (if i < 8 then
        (case docker_isRunning env cid tr of
           ((running, err), tr1) \<Rightarrow>
             if err = None \<and> running then (None, tr1)
             else startPoll env cid (i + 1) (tr1 @ [Sleep ((i + 1) * 100)]))
      else (Some errorStartTimeout, tr))"
  by pat_completeness auto
termination
  by (relation "measure (\<lambda>(env, cid, i, tr). 8 - i)") auto

declare startPoll.simps [simp del]

definition docker_Start :: "env \<Rightarrow> string \<Rightarrow> bool \<Rightarrow> trace \<Rightarrow> error option \<times> trace" where
  "docker_Start env cid attached tr =
     (let args = [''start''] @ (if attached then [''-a''] else []) @ [cid] in
      if \<not> attached then
        (case call env (CmdRun args) tr of (r, tr1) \<Rightarrow> (errOf r, tr1))
      else
        (case call env (CmdStart args) tr of
           (Inl e, tr1) \<Rightarrow> (Some e, tr1)
         | (Inr _, tr1) \<Rightarrow> startPoll env cid 0 (tr1 @ [WaitGroupAdd])))"

text \<open>
  The probe of \<open>startPoll\<close> and the actions of its first \<open>n\<close> unsuccessful rounds:
  round \<open>k\<close> (from 0) inspects the container and then sleeps \<open>(k + 1) * 100\<close>
  milliseconds. \<open>probeFails\<close> says that the probe made after the trace \<open>tr\<close> does not
  confirm the container running: the inspection fails, or prints something other
  than \<open>true\<close>.
\<close>

definition probe :: "string \<Rightarrow> action" where
  "probe cid = CmdOutput [''inspect'', ''-f'', ''{{.State.Running}}'', cid]"

definition pollTrace :: "string \<Rightarrow> nat \<Rightarrow> trace" where
  "pollTrace cid n = concat (map (\<lambda>k. [probe cid, Sleep ((k + 1) * 100)]) [0..<n])"

definition probeFails :: "env \<Rightarrow> string \<Rightarrow> trace \<Rightarrow> bool" where
  "probeFails env cid tr =
     (case env tr (probe cid) of
        Inl e \<Rightarrow> True
      | Inr out \<Rightarrow> strings_Trim out whitespace \<noteq> ''true'')"

section \<open>Instance lifecycle (InstanceState.run)\<close>

unbundle bit_operations_syntax

text \<open>\<open>(flags & f) != 0\<close> on the run flags.\<close>

definition hasFlag :: "nat \<Rightarrow> nat \<Rightarrow> bool" where
  "hasFlag flags f \<longleftrightarrow> flags AND f \<noteq> 0"

text \<open>\<open>fmt.Sprintf("%v", n)\<close> for an unsigned integer: its decimal digits.\<close>

fun showNat :: "nat \<Rightarrow> string" where
  "showNat n =
     (if n < 10 then [char_of (48 + n)]
      else showNat (n div 10) @ [char_of (48 + n mod 10)])"

declare showNat.simps [simp del]

definition nl :: string where
  "nl = [CHR 0x0A]"

text \<open>\<open>cs.stateDir\<close> and \<open>cs.workspace\<close>, as \<open>CloudEnv.Run\<close> sets them.\<close>

definition cs_stateDir :: "CloudEnv \<Rightarrow> string" where
  "cs_stateDir ce = path_Join [ce_DataDir ce, states, ce_ClusterName ce]"

definition cs_workspace :: "CloudEnv \<Rightarrow> string" where
  "cs_workspace ce = path_Join [workspace, states, ce_ClusterName ce]"

text \<open>\<open>InstanceState.stop\<close> and \<open>InstanceState.remove\<close>.\<close>

definition InstanceState_stop :: "env \<Rightarrow> InstanceState \<Rightarrow> trace \<Rightarrow> trace" where
  "InstanceState_stop env is tr =
     (if is_ContainerId is \<noteq> '''' then snd (docker_Stop env (is_ContainerId is) tr) else tr)"

definition InstanceState_remove :: "env \<Rightarrow> InstanceState \<Rightarrow> trace \<Rightarrow> InstanceState \<times> trace" where
  "InstanceState_remove env is tr =
     (if is_ContainerId is \<noteq> '''' then
        (let tr1 = snd (docker_RmForce env (is_ContainerId is) tr) in
         if is_cidfile is \<noteq> '''' then
           (case call env (RemoveFile (is_cidfile is)) tr1 of
              (r, tr2) \<Rightarrow>
                if errOf r = None
                then (is\<lparr>is_cidfile := '''', is_ContainerId := ''''\<rparr>, tr2)
                else (is\<lparr>is_ContainerId := ''''\<rparr>, tr2))
         else (is\<lparr>is_ContainerId := ''''\<rparr>, tr1))
      else (is, tr))"

text \<open>
  \<open>InstanceState.runCommands\<close>. \<open>runCommandsLoop\<close> is the loop over
  \<open>commands.Commands\<close>; \<open>q\<close> answers the variable queries of \<open>Substitute\<close> for
  this instance's context.
\<close>

fun runCommandsLoop ::
  "env \<Rightarrow> (string \<Rightarrow> string \<times> bool) \<Rightarrow> string \<Rightarrow> string \<Rightarrow> string \<Rightarrow> string \<Rightarrow> string list
     \<Rightarrow> trace \<Rightarrow> error option \<times> trace" where
  "runCommandsLoop env q shell cid remoteWrapper localScript [] tr = (None, tr)"
| "runCommandsLoop env q shell cid remoteWrapper localScript (command0 # rest) tr =
     (let command = strings_Trim (Substitute q command0) '' '' in
      if command = '''' then runCommandsLoop env q shell cid remoteWrapper localScript rest tr
      else
        (case call env (RemoveFile (localScript @ ''.exit'')) tr of
           (r1, tr1) \<Rightarrow>
             if errOf r1 \<noteq> None \<and> errOf r1 \<noteq> Some NotExist then (errOf r1, tr1)
             else
               (case call env (WriteFile localScript (''#!'' @ shell @ nl @ command)) tr1 of
                  (r2, tr2) \<Rightarrow>
                    if errOf r2 \<noteq> None then (errOf r2, tr2)
                    else
                      (case docker_Exec env cid [remoteWrapper] tr2 of
                         (e3, tr3) \<Rightarrow>
                           if e3 \<noteq> None then (e3, tr3)
                           else
                             (case call env (ReadFile (localScript @ ''.exit'')) tr3 of
                                (Inl e4, tr4) \<Rightarrow> (Some e4, tr4)
                              | (Inr result, tr4) \<Rightarrow>
                                  (case strconv_Atoi (strings_Trim result whitespace) of
                                     None \<Rightarrow>
                                       (Some (AtoiError (strings_Trim result whitespace)), tr4)
                                   | Some exitCode \<Rightarrow>
                                       if exitCode \<noteq> 0
                                       then (Some (ExitError exitCode command), tr4)
                                       else runCommandsLoop env q shell cid remoteWrapper
                                              localScript rest tr4))))))"

definition InstanceState_runCommands ::
  "env \<Rightarrow> (string \<Rightarrow> string \<times> bool) \<Rightarrow> NodeState \<Rightarrow> InstanceState \<Rightarrow> string \<Rightarrow> string \<Rightarrow> string
     \<Rightarrow> trace \<Rightarrow> error option \<times> trace" where
  "InstanceState_runCommands env q ns is name remoteWrapper localScript tr =
     (case node_Commands (ns_Node ns) name of
        None \<Rightarrow> (None, tr)
      | Some commands \<Rightarrow>
          (let shell = (if cmd_Shell commands \<noteq> '''' then cmd_Shell commands else ''/bin/bash'')
           in runCommandsLoop env q shell (is_ContainerId is) remoteWrapper localScript
                (cmd_Commands commands) tr))"

text \<open>\<open>InstanceState.capture\<close> does nothing and returns nil.\<close>

definition InstanceState_capture :: "InstanceState \<Rightarrow> error option" where
  "InstanceState_capture is = None"

text \<open>
  \<open>InstanceState.run\<close>, in the order of the source. \<open>runWrapper\<close> is the part under
  \<open>if runCmds\<close> before the container is created: the run directory and the wrapper
  script. \<open>runStarted\<close> is what follows a successful start: the network identity is
  published, the commands are run, the container is stopped and removed as the flags
  say. The result is the error returned and the instance state left behind.
\<close>

definition runWrapper :: "env \<Rightarrow> string \<Rightarrow> string \<Rightarrow> trace \<Rightarrow> error option \<times> trace" where
  "runWrapper env runDir remoteScript tr =
     (case call env (MkdirAll runDir) tr of
        (r1, tr1) \<Rightarrow>
          if errOf r1 \<noteq> None then (errOf r1, tr1)
          else
            (case call env
                    (WriteFile (path_Join [runDir, ''run.sh''])
                       (''#!/bin/sh'' @ nl @ remoteScript @ nl @ ''echo $?>'' @ remoteScript
                          @ ''.exit'' @ nl @ ''chmod 0777 '' @ remoteScript @ ''.exit'')) tr1 of
               (r2, tr2) \<Rightarrow> (errOf r2, tr2)))"

definition publishIdentity :: "env \<Rightarrow> InstanceState \<Rightarrow> trace \<Rightarrow> InstanceState \<times> trace" where
  "publishIdentity env is tr =
     (case docker_Inspect env (is_ContainerId is) ''{{.NetworkSettings.IPAddress}}'' tr of
        ((ip, err1), tr1) \<Rightarrow>
          (let is1 = (if err1 = None then is\<lparr>is_LocalVars := (is_LocalVars is)(''ip'' \<mapsto> ip)\<rparr>
                      else is) in
           (case docker_Inspect env (is_ContainerId is1) ''{{.NetworkSettings.MacAddress}}'' tr1 of
              ((mac, err2), tr2) \<Rightarrow>
                (let is2 = (if err2 = None
                            then is1\<lparr>is_LocalVars := (is_LocalVars is1)(''mac'' \<mapsto> mac)\<rparr>
                            else is1)
                 in (is2, tr2 @ [Notify])))))"

definition runStarted ::
  "env \<Rightarrow> (string \<Rightarrow> string \<times> bool) \<Rightarrow> CloudEnv \<Rightarrow> NodeState \<Rightarrow> InstanceState \<Rightarrow> string \<Rightarrow> string
     \<Rightarrow> trace \<Rightarrow> (error option \<times> InstanceState) \<times> trace" where
  "runStarted env q ce ns is remoteWrapper localScript tr =
     (case publishIdentity env is tr of
        (is1, tr1) \<Rightarrow>
          (case (if hasFlag (ce_RunFlags ce) Run then
                   (case InstanceState_runCommands env q ns is1 ''run'' remoteWrapper
                           localScript tr1 of
                      (err, tr2) \<Rightarrow>
                        (if err = None then InstanceState_capture is1 else err, tr2))
                 else (None, tr1)) of
             (err, tr2) \<Rightarrow>
               if hasFlag (ce_RunFlags ce) Stop then
                 (let tr3 = InstanceState_stop env is1 tr2 in
                  if hasFlag (ce_RunFlags ce) Remove then
                    (case InstanceState_remove env is1 tr3 of
                       (is2, tr4) \<Rightarrow> ((err, is2), tr4))
                  else ((err, is1), tr3))
               else ((err, is1), tr2)))"

definition InstanceState_run ::
  "env \<Rightarrow> (string \<Rightarrow> string \<times> bool) \<Rightarrow> CloudEnv \<Rightarrow> NodeState \<Rightarrow> nat \<Rightarrow> InstanceState
     \<Rightarrow> trace \<Rightarrow> (error option \<times> InstanceState) \<times> trace" where
  "InstanceState_run env q ce ns index is0 tr =
     (let name = ns_Name ns @ ''.'' @ showNat index;
          runDir = path_Join [cs_stateDir ce, name @ ''.run''];
          localScript = path_Join [runDir, ''cmd.sh''];
          remoteScript = path_Join [cs_workspace ce, name @ ''.run'', ''cmd.sh''];
          remoteWrapper = path_Join [cs_workspace ce, name @ ''.run'', ''run.sh''];
          is1 = is0\<lparr>is_cidfile := path_Join [cs_stateDir ce, name @ ''.cid'']\<rparr>
      in
      (case (if hasFlag (ce_RunFlags ce) Run then runWrapper env runDir remoteScript tr
             else (None, tr)) of
         (Some e, tr1) \<Rightarrow> ((Some e, is1), tr1)
       | (None, tr1) \<Rightarrow>
           (case docker_Create env (is_cidfile is1) (ns_DockerArgs ns) tr1 of
              ((cid, err), tr2) \<Rightarrow>
                (let is2 = is1\<lparr>is_ContainerId := cid\<rparr> in
                 if err \<noteq> None then ((err, is2), tr2)
                 else
                   (case docker_Start env (is_ContainerId is2)
                           (\<not> hasFlag (ce_RunFlags ce) Detach) tr2 of
                      (err3, tr3) \<Rightarrow>
                        if err3 \<noteq> None then
                          (case InstanceState_remove env is2 tr3 of
                             (is3, tr4) \<Rightarrow> ((err3, is3), tr4))
                        else runStarted env q ce ns is2 remoteWrapper localScript tr3)))))"

text \<open>
  The task of an instance, the function started with \<open>go\<close> in \<open>NodeState.run\<close>:
  the error of \<open>run\<close> is recorded in the instance, then \<open>Stopped\<close> is set and the
  condition variable is notified.
\<close>

definition instanceTask ::
  "env \<Rightarrow> (string \<Rightarrow> string \<times> bool) \<Rightarrow> CloudEnv \<Rightarrow> NodeState \<Rightarrow> nat \<Rightarrow> InstanceState
     \<Rightarrow> trace \<Rightarrow> InstanceState \<times> trace" where
  "instanceTask env q ce ns index is0 tr =
     (case InstanceState_run env q ce ns index is0 tr of
        ((err, is1), tr1) \<Rightarrow> (is1\<lparr>is_Error := err, is_Stopped := True\<rparr>, tr1 @ [Notify]))"

section \<open>Node lifecycle (NodeState.run, CloudEnv.Run)\<close>

text \<open>
  \<open>NodeState.run\<close> in three parts. \<open>nodeSetup\<close> is what it does between the
  creation of the state directory and the image load: the local variables, the
  resolved image, the first docker arguments, the logger. \<open>nodeArgs\<close> is what follows a
  successful image load up to the launch of the instances: the privileged flag, the
  entrypoint, the environment entries, the volume mappings, then (after
  \<open>prepareNode\<close>, which does nothing and returns nil) the image and the command.
\<close>

definition nodeSetup :: "(string \<Rightarrow> string \<times> bool) \<Rightarrow> CloudEnv \<Rightarrow> NodeState \<Rightarrow> NodeState" where
  "nodeSetup q ce ns =
     (let img = Substitute q (node_Image (ns_Node ns)) in
      ns\<lparr>ns_LocalVars := (ns_LocalVars ns)
            (''template'' \<mapsto> ns_Name ns,
             ''instances'' \<mapsto> showNat (length (ns_Instances ns)),
             ''image'' \<mapsto> img),
         ns_Image := img,
         ns_DockerArgs := [''-v'', ce_DataDir ce @ '':'' @ workspace, ''-w'', workspace],
         ns_Logger := Some (ns_Name ns)\<rparr>)"

definition propertyArgs :: "(string \<Rightarrow> string \<times> bool) \<Rightarrow> CloudEnv \<Rightarrow> DockerProperties \<Rightarrow> string list" where
  "propertyArgs q ce dp =
     (if dp_Privileged dp then [''--privileged''] else [])
     @ (if dp_Entrypoint dp \<noteq> '''' then [''--entrypoint'', Substitute q (dp_Entrypoint dp)]
        else [])
     @ concat (map (\<lambda>e. [''-e'', Substitute q e]) (dp_Env dp))
     @ concat (map (\<lambda>vol. [''-v'', volumeMap (ce_DataDir ce) (Substitute q vol)])
                 (dp_Volumes dp))"

definition NodeState_prepareNode :: "NodeState \<Rightarrow> error option" where
  "NodeState_prepareNode ns = None"

definition nodeArgs :: "(string \<Rightarrow> string \<times> bool) \<Rightarrow> CloudEnv \<Rightarrow> NodeState \<Rightarrow> NodeState" where
  "nodeArgs q ce ns =
     ns\<lparr>ns_DockerArgs := ns_DockerArgs ns @ propertyArgs q ce (node_Docker (ns_Node ns))
           @ [ns_Image ns] @ dp_Cmd (node_Docker (ns_Node ns))\<rparr>"

text \<open>
  The image load is an action: \<open>cs.LoadImage(ns.Node.Image)\<close> is answered by the
  environment with the error of the shared loader entry or with nil (how the entry
  is shared between the callers is the subject of the section on the image cache).
  The tasks of the instances run concurrently, each against its own environment
  \<open>ienv i\<close> and with its own answers \<open>iq i\<close> to its variable queries; the node's trace
  records their launch (\<open>GoInstance\<close>), and \<open>wg.Wait()\<close> returns when each has given
  its final instance state.
\<close>

definition NodeState_run ::
  "env \<Rightarrow> (nat \<Rightarrow> env) \<Rightarrow> (string \<Rightarrow> string \<times> bool) \<Rightarrow> (nat \<Rightarrow> string \<Rightarrow> string \<times> bool)
     \<Rightarrow> CloudEnv \<Rightarrow> NodeState \<Rightarrow> trace \<Rightarrow> (error option \<times> NodeState) \<times> trace" where
  "NodeState_run env ienv q iq ce ns0 tr =
     (case call env (MkdirAll (cs_stateDir ce)) tr of
        (r1, tr1) \<Rightarrow>
          if errOf r1 \<noteq> None \<and> errOf r1 \<noteq> Some Exist then ((errOf r1, ns0), tr1)
          else
            (let ns1 = nodeSetup q ce ns0 in
             (case call env (LoadImage (node_Image (ns_Node ns1))) (tr1 @ [Notify]) of
                (r2, tr2) \<Rightarrow>
                  if errOf r2 \<noteq> None then ((errOf r2, ns1), tr2)
                  else
                    (case (if hasFlag (ce_RunFlags ce) Prepare
                           then NodeState_prepareNode ns1 else None) of
                       Some e \<Rightarrow> ((Some e, ns1), tr2)
                     | None \<Rightarrow>
                         (let ns2 = nodeArgs q ce ns1;
                              idx = [0..<length (ns_Instances ns2)]
                          in ((None,
                               ns2\<lparr>ns_Instances :=
                                     map (\<lambda>i. fst (instanceTask (ienv i) (iq i) ce ns2 i
                                                      (ns_Instances ns2 ! i) [])) idx\<rparr>),
                              tr2 @ map GoInstance idx))))))"

text \<open>
  \<open>CloudEnv.Run\<close>: the node states as its first loop makes them (the \<open>Logger\<close> of
  each is nil), and the task of a node, the function started with \<open>go\<close> in its
  second loop. When \<open>run\<close> returns an error the task calls \<open>ns.Logger.Error\<close>; \<open>run\<close>
  assigns \<open>ns.Logger\<close> only after the state directory is made, so when \<open>run\<close> has
  returned the error of \<open>os.MkdirAll\<close> the logger is still nil and the call panics:
  the task's result is \<open>None\<close>, and neither \<open>Stopped\<close> is set nor \<open>Notify\<close> called.
\<close>

definition initNodeState :: "Node \<Rightarrow> NodeState" where
  "initNodeState node =
     \<lparr>ns_Node = node, ns_Image = '''', ns_LocalVars = Map.empty, ns_DockerArgs = [],
      ns_Instances =
        map (\<lambda>j. \<lparr>is_Index = j, is_ContainerId = '''', is_LocalVars = Map.empty,
                   is_Error = None, is_Stopped = False, is_cidfile = ''''\<rparr>)
          [0..<node_Instances node],
      ns_Error = None, ns_Stopped = False, ns_Logger = None\<rparr>"

definition nodeTask ::
  "env \<Rightarrow> (nat \<Rightarrow> env) \<Rightarrow> (string \<Rightarrow> string \<times> bool) \<Rightarrow> (nat \<Rightarrow> string \<Rightarrow> string \<times> bool)
     \<Rightarrow> CloudEnv \<Rightarrow> NodeState \<Rightarrow> trace \<Rightarrow> (NodeState \<times> trace) option" where
  "nodeTask env ienv q iq ce ns tr =
     (case NodeState_run env ienv q iq ce ns tr of
        ((err, ns1), tr1) \<Rightarrow>
          if err \<noteq> None \<and> ns_Logger ns1 = None then None
          else Some (ns1\<lparr>ns_Error := err, ns_Stopped := True\<rparr>, tr1 @ [Notify]))"

section \<open>Example environments\<close>

text \<open>
  An engine on which every command succeeds, containers created are named \<open>new1\<close>
  and no container is ever reported running; \<open>prior\<close> is the content of every
  marker file. \<open>ex_env_fail\<close> is the same engine with a failing \<open>create\<close>, and
  \<open>ex_env_noimage\<close> one whose image load fails.
\<close>

definition ex_env :: "string \<Rightarrow> string \<Rightarrow> env" where
  "ex_env prior running tr a =
     (case a of
        ReadFile p \<Rightarrow> if prior = '''' then Inl NotExist else Inr prior
      | CmdOutput args \<Rightarrow> if hd args = ''inspect'' then Inr (running @ nl) else Inr (''new1'' @ nl)
      | _ \<Rightarrow> Inr '''')"

definition ex_env_fail :: "string \<Rightarrow> string \<Rightarrow> env" where
  "ex_env_fail prior running tr a =
     (case a of
        CmdOutput args \<Rightarrow> if hd args = ''create'' then Inl (OSError ''exit status 1'')
                          else ex_env prior running tr a
      | _ \<Rightarrow> ex_env prior running tr a)"

definition ex_env_noimage :: env where
  "ex_env_noimage tr a =
     (case a of
        LoadImage n \<Rightarrow> Inl (OSError ''exit status 1'')
      | _ \<Rightarrow> ex_env '''' ''false'' tr a)"

definition ex_ce :: "nat \<Rightarrow> CloudEnv" where
  "ex_ce flags = \<lparr>ce_ClusterName = ''c1'', ce_DataDir = ''/srv/data'', ce_RunFlags = flags\<rparr>"

text \<open>
  A node with three declared volumes: a relative source, an absolute source, and a
  relative source whose destination ends with a reference, which \<open>ex_vol_q\<close>
  resolves to \<open>app\<close>. The data directory is \<open>/srv/cluster1\<close>.
\<close>

definition ex_vol_def :: Node where
  "ex_vol_def = \<lparr>node_Name = ''app'', node_Instances = 1, node_Image = ''img'',
     node_Docker = \<lparr>dp_Entrypoint = '''', dp_Cmd = [''serve''], dp_Env = [''A=1''],
       dp_Privileged = True,
       dp_Volumes = [''data:/app/data'', ''/abs/path:/app/data'', ''logs:/var/%(name)'']\<rparr>,
     node_Commands = Map.empty\<rparr>"

definition ex_vol_q :: "string \<Rightarrow> string \<times> bool" where
  "ex_vol_q n = (if n = ''name'' then (''app'', True) else ('''', False))"

definition ex_vol_ce :: CloudEnv where
  "ex_vol_ce = \<lparr>ce_ClusterName = ''cluster1'', ce_DataDir = ''/srv/cluster1'',
     ce_RunFlags = 0x03\<rparr>"

section \<open>The image cache (CloudState.LoadImage)\<close>

text \<open>
  \<open>LoadImage\<close> is called by the node tasks concurrently, so it is modelled by the
  steps of its callers, interleaved by a schedule. A caller is a thread \<open>t\<close> (a
  number) that calls \<open>LoadImage(calls t)\<close> once. Its place in the function is a
  \<open>load_pc\<close>:
  \<^item> \<open>LI_Call\<close>: before \<open>cs.Lock()\<close>;
  \<^item> \<open>LI_Lookup\<close>: holding the lock, before \<open>loader, exists := cs.Images[name]\<close>;
  \<^item> \<open>LI_Check\<close>: the entry exists; before the test \<open>complete == 0\<close> of the loop;
  \<^item> \<open>LI_Wait\<close>: the test found \<open>complete == 0\<close>; before \<open>cs.Wait()\<close>;
  \<^item> \<open>LI_Sleeping\<close>: inside \<open>cs.Wait()\<close>, on the condition's wait list, the lock released;
  \<^item> \<open>LI_Woken\<close>: notified, before \<open>cs.Wait()\<close> takes the lock again;
  \<^item> \<open>LI_Unlock\<close>: the loop is left; before \<open>cs.Unlock()\<close>;
  \<^item> \<open>LI_Insert\<close>: no entry exists; before \<open>cs.Images[name] = loader\<close>;
  \<^item> \<open>LI_UnlockL\<close>: the entry is stored; before \<open>cs.Unlock()\<close>;
  \<^item> \<open>LI_Load\<close>: before \<open>loader.Load()\<close>, which pulls and sets \<open>Error\<close>;
  \<^item> \<open>LI_Store\<close>: before \<open>atomic.StoreInt32(&loader.complete, 1)\<close>;
  \<^item> \<open>LI_Notify\<close>: before \<open>cs.Notify()\<close>;
  \<^item> \<open>LI_Return\<close>: before \<open>return loader.Error\<close>;
  \<^item> \<open>LI_Done e\<close>: returned \<open>e\<close>.
  \<open>cs.Wait()\<close> puts the caller on the wait list before it releases the lock, so the
  two are one step; \<open>cs.Notify()\<close> (a broadcast) wakes the threads that are on the
  wait list at that moment.
\<close>

datatype load_pc =
    LI_Call | LI_Lookup | LI_Check | LI_Wait | LI_Sleeping | LI_Woken | LI_Unlock
  | LI_Insert | LI_UnlockL | LI_Load | LI_Store | LI_Notify | LI_Return
  | LI_Done "error option"

text \<open>\<open>ImageLoader\<close>: the fields \<open>complete\<close> and \<open>Error\<close> of an entry of \<open>cs.Images\<close>.\<close>

record ImageLoader =
  il_complete :: bool
  il_Error :: "error option"

text \<open>
  The shared state: the holder of \<open>cs.lock\<close>, the map \<open>cs.Images\<close>, the number of
  times the driver's pull has been invoked for each image name, and the place of each
  thread.
\<close>

record load_state =
  ls_lock :: "nat option"
  ls_Images :: "string \<rightharpoonup> ImageLoader"
  ls_pulls :: "string \<Rightarrow> nat"
  ls_pc :: "nat \<Rightarrow> load_pc"

definition load_init :: load_state where
  "load_init = \<lparr>ls_lock = None, ls_Images = Map.empty, ls_pulls = (\<lambda>n. 0),
                 ls_pc = (\<lambda>t. LI_Call)\<rparr>"

text \<open>
  An event of a schedule: a thread takes its next step, or a task outside the model
  broadcasts on the condition variable (the instance and node tasks call
  \<open>cs.Notify()\<close> too).
\<close>

datatype event = Step nat | Broadcast

definition wakeAll :: "(nat \<Rightarrow> load_pc) \<Rightarrow> nat \<Rightarrow> load_pc" where
  "wakeAll pc = (\<lambda>t. if pc t = LI_Sleeping then LI_Woken else pc t)"

text \<open>
  The next step of the thread \<open>t\<close>; \<open>None\<close> when it cannot take one (the lock is
  held by another thread, it sleeps, or it has returned). \<open>pullRes name k\<close> is the
  driver's answer to the pull number \<open>k\<close> (from 0) of the image \<open>name\<close>.
\<close>

definition load_step ::
  "(nat \<Rightarrow> string) \<Rightarrow> (string \<Rightarrow> nat \<Rightarrow> error option) \<Rightarrow> load_state \<Rightarrow> nat
     \<Rightarrow> load_state option" where
  "load_step calls pullRes s t =
     (let name = calls t in
      case ls_pc s t of
        LI_Call \<Rightarrow>
          if ls_lock s = None
          then Some (s\<lparr>ls_lock := Some t, ls_pc := (ls_pc s)(t := LI_Lookup)\<rparr>)
          else None
      | LI_Lookup \<Rightarrow>
          (case ls_Images s name of
             Some loader \<Rightarrow> Some (s\<lparr>ls_pc := (ls_pc s)(t := LI_Check)\<rparr>)
           | None \<Rightarrow> Some (s\<lparr>ls_pc := (ls_pc s)(t := LI_Insert)\<rparr>))
      | LI_Check \<Rightarrow>
          (case ls_Images s name of
             Some loader \<Rightarrow>
               if il_complete loader then Some (s\<lparr>ls_pc := (ls_pc s)(t := LI_Unlock)\<rparr>)
               else Some (s\<lparr>ls_pc := (ls_pc s)(t := LI_Wait)\<rparr>)
           | None \<Rightarrow> None)
      | LI_Wait \<Rightarrow> Some (s\<lparr>ls_lock := None, ls_pc := (ls_pc s)(t := LI_Sleeping)\<rparr>)
      | LI_Sleeping \<Rightarrow> None
      | LI_Woken \<Rightarrow>
          if ls_lock s = None
          then Some (s\<lparr>ls_lock := Some t, ls_pc := (ls_pc s)(t := LI_Check)\<rparr>)
          else None
      | LI_Unlock \<Rightarrow> Some (s\<lparr>ls_lock := None, ls_pc := (ls_pc s)(t := LI_Return)\<rparr>)
      | LI_Insert \<Rightarrow>
          Some (s\<lparr>ls_Images := (ls_Images s)(name \<mapsto> \<lparr>il_complete = False, il_Error = None\<rparr>),
                  ls_pc := (ls_pc s)(t := LI_UnlockL)\<rparr>)
      | LI_UnlockL \<Rightarrow> Some (s\<lparr>ls_lock := None, ls_pc := (ls_pc s)(t := LI_Load)\<rparr>)
      | LI_Load \<Rightarrow>
          (case ls_Images s name of
             Some loader \<Rightarrow>
               Some (s\<lparr>ls_Images := (ls_Images s)
                          (name \<mapsto> loader\<lparr>il_Error := pullRes name (ls_pulls s name)\<rparr>),
                       ls_pulls := (ls_pulls s)(name := ls_pulls s name + 1),
                       ls_pc := (ls_pc s)(t := LI_Store)\<rparr>)
           | None \<Rightarrow> None)
      | LI_Store \<Rightarrow>
          (case ls_Images s name of
             Some loader \<Rightarrow>
               Some (s\<lparr>ls_Images := (ls_Images s)(name \<mapsto> loader\<lparr>il_complete := True\<rparr>),
                       ls_pc := (ls_pc s)(t := LI_Notify)\<rparr>)
           | None \<Rightarrow> None)
      | LI_Notify \<Rightarrow> Some (s\<lparr>ls_pc := (wakeAll (ls_pc s))(t := LI_Return)\<rparr>)
      | LI_Return \<Rightarrow>
          (case ls_Images s name of
             Some loader \<Rightarrow> Some (s\<lparr>ls_pc := (ls_pc s)(t := LI_Done (il_Error loader))\<rparr>)
           | None \<Rightarrow> None)
      | LI_Done e \<Rightarrow> None)"

definition load_event ::
  "(nat \<Rightarrow> string) \<Rightarrow> (string \<Rightarrow> nat \<Rightarrow> error option) \<Rightarrow> load_state \<Rightarrow> event
     \<Rightarrow> load_state option" where
  "load_event calls pullRes s ev =
     (case ev of
        Step t \<Rightarrow> load_step calls pullRes s t
      | Broadcast \<Rightarrow> Some (s\<lparr>ls_pc := wakeAll (ls_pc s)\<rparr>))"

text \<open>A schedule is run event by event; it is \<open>None\<close> when an event cannot happen.\<close>

fun load_run ::
  "(nat \<Rightarrow> string) \<Rightarrow> (string \<Rightarrow> nat \<Rightarrow> error option) \<Rightarrow> load_state \<Rightarrow> event list
     \<Rightarrow> load_state option" where
  "load_run calls pullRes s [] = Some s"
| "load_run calls pullRes s (ev # evs) =
     (case load_event calls pullRes s ev of
        None \<Rightarrow> None
      | Some s1 \<Rightarrow> load_run calls pullRes s1 evs)"

text \<open>
  The invariant of the reachable states. \<open>holdsLock\<close> and \<open>loading\<close> classify the
  places; \<open>pc_ok\<close> says what the entry of the thread's image is like at each place.
\<close>

definition holdsLock :: "load_pc \<Rightarrow> bool" where
  "holdsLock p \<longleftrightarrow> p \<in> {LI_Lookup, LI_Check, LI_Wait, LI_Unlock, LI_Insert, LI_UnlockL}"

definition loading :: "load_pc \<Rightarrow> bool" where
  "loading p \<longleftrightarrow> p \<in> {LI_UnlockL, LI_Load, LI_Store}"

fun pc_ok ::
  "(string \<Rightarrow> nat \<Rightarrow> error option) \<Rightarrow> (string \<rightharpoonup> ImageLoader) \<Rightarrow> (string \<Rightarrow> nat) \<Rightarrow> string
     \<Rightarrow> load_pc \<Rightarrow> bool" where
  "pc_ok pullRes imgs pulls name LI_Call = True"
| "pc_ok pullRes imgs pulls name LI_Lookup = True"
| "pc_ok pullRes imgs pulls name LI_Insert = (imgs name = None)"
| "pc_ok pullRes imgs pulls name LI_Check = (imgs name \<noteq> None)"
| "pc_ok pullRes imgs pulls name LI_Wait = (imgs name \<noteq> None)"
| "pc_ok pullRes imgs pulls name LI_Sleeping = (imgs name \<noteq> None)"
| "pc_ok pullRes imgs pulls name LI_Woken = (imgs name \<noteq> None)"
| "pc_ok pullRes imgs pulls name LI_UnlockL =
     ((\<exists>ld. imgs name = Some ld \<and> \<not> il_complete ld) \<and> pulls name = 0)"
| "pc_ok pullRes imgs pulls name LI_Load =
     ((\<exists>ld. imgs name = Some ld \<and> \<not> il_complete ld) \<and> pulls name = 0)"
| "pc_ok pullRes imgs pulls name LI_Store =
     ((\<exists>ld. imgs name = Some ld \<and> \<not> il_complete ld \<and> il_Error ld = pullRes name 0)
      \<and> pulls name = 1)"
| "pc_ok pullRes imgs pulls name LI_Unlock = (\<exists>ld. imgs name = Some ld \<and> il_complete ld)"
| "pc_ok pullRes imgs pulls name LI_Notify = (\<exists>ld. imgs name = Some ld \<and> il_complete ld)"
| "pc_ok pullRes imgs pulls name LI_Return = (\<exists>ld. imgs name = Some ld \<and> il_complete ld)"
| "pc_ok pullRes imgs pulls name (LI_Done e) =
     (\<exists>ld. imgs name = Some ld \<and> il_complete ld \<and> il_Error ld = e)"

definition load_inv ::
  "(nat \<Rightarrow> string) \<Rightarrow> (string \<Rightarrow> nat \<Rightarrow> error option) \<Rightarrow> load_state \<Rightarrow> bool" where
  "load_inv calls pullRes s \<longleftrightarrow>
     (\<forall>t. holdsLock (ls_pc s t) \<longrightarrow> ls_lock s = Some t) \<and>
     (\<forall>t. pc_ok pullRes (ls_Images s) (ls_pulls s) (calls t) (ls_pc s t)) \<and>
     (\<forall>t u. loading (ls_pc s t) \<and> loading (ls_pc s u) \<and> calls t = calls u \<longrightarrow> t = u) \<and>
     (\<forall>n. ls_pulls s n \<le> 1 \<and>
          (ls_Images s n = None \<longrightarrow> ls_pulls s n = 0) \<and>
          (\<forall>ld. ls_Images s n = Some ld \<and> il_complete ld \<longrightarrow>
                  ls_pulls s n = 1 \<and> il_Error ld = pullRes n 0))"

text \<open>
  A schedule of two callers of the same image: thread 0 stores the entry and releases
  the lock, thread 1 finds the entry incomplete and waits, thread 0 pulls, completes
  the entry, broadcasts and returns, thread 1 wakes up and returns. The driver
  answers the first pull of an image with an error.
\<close>

definition ex_load_sched :: "event list" where
  "ex_load_sched =
     [Step 0, Step 0, Step 0, Step 0, Step 1, Step 1, Step 1, Step 1,
      Step 0, Step 0, Step 0, Step 0, Step 1, Step 1, Step 1, Step 1]"

definition ex_pullRes :: "string \<Rightarrow> nat \<Rightarrow> error option" where
  "ex_pullRes name k = (if k = 0 then Some (OSError ''exit status 1'') else None)"

text \<open>
  A schedule of the same two callers in which thread 1 is preempted between its test
  of \<open>complete\<close> and \<open>cs.Wait()\<close>: thread 0 stores the entry and releases the lock;
  thread 1 takes the lock, finds the entry and tests \<open>complete\<close> (it is 0); thread 0
  pulls, stores \<open>complete\<close>, broadcasts and returns, and the node task that called it,
  whose \<open>run\<close> returns the error of the pull at once, broadcasts once more as it ends;
  then thread 1 calls \<open>cs.Wait()\<close>.
\<close>

definition ex_lost_sched :: "event list" where
  "ex_lost_sched =
     [Step 0, Step 0, Step 0, Step 0, Step 1, Step 1, Step 1,
      Step 0, Step 0, Step 0, Step 0, Broadcast, Step 1]"

section \<open>The wait protocol of the cross-reference provider (cluster.go)\<close>

text \<open>
  \<open>queryNode\<close> and \<open>queryInstance\<close> end in the same loop on their target (a node
  state or an instance state): with the activation lock held, while the target's
  \<open>Stopped\<close> is false, query the target's local scope for the key, leave the loop
  if it is there, and wait on the condition variable otherwise. The loop runs
  concurrently with the task of the target, so both are modelled by their steps,
  interleaved by a schedule.

  The waiter is the caller of the query after its first, unlocked query did not
  find the key (\<open>WaitNode\<close>, \<open>WaitInstance\<close> above). Its place is a \<open>wait_pc\<close>:
  \<^item> \<open>XW_Lock\<close>: before \<open>ctx.Cloud.Lock()\<close>;
  \<^item> \<open>XW_Test\<close>: holding the lock, before the test \<open>!Stopped\<close> of the loop;
  \<^item> \<open>XW_Query\<close>: \<open>Stopped\<close> was false; before \<open>val, exists = LocalVars.QueryVar(key, ctx)\<close>;
  \<^item> \<open>XW_Wait\<close>: the key was not there; before \<open>ctx.Cloud.Wait()\<close>;
  \<^item> \<open>XW_Sleeping\<close>: inside \<open>Wait()\<close>, on the wait list, the lock released;
  \<^item> \<open>XW_Woken\<close>: notified, before \<open>Wait()\<close> takes the lock again;
  \<^item> \<open>XW_Unlock\<close>: the loop is left; before \<open>ctx.Cloud.Unlock()\<close>;
  \<^item> \<open>XW_Done val exists\<close>: returned \<open>(val, exists)\<close>.

  The task of the target is the list of the actions it still has to do on the state
  the waiter reads: it stores a variable in its local scope (\<open>UpdateVar\<close>), it
  broadcasts (\<open>cs.Notify()\<close>), it sets its \<open>Stopped\<close> flag. None of the three is done
  with the activation lock held. The tasks of cloudenv.go end with \<open>Stopped = true\<close>
  followed by \<open>cs.Notify()\<close>.
\<close>

datatype wait_pc =
    XW_Lock | XW_Test | XW_Query | XW_Wait | XW_Sleeping | XW_Woken | XW_Unlock
  | XW_Done string bool

datatype target_action = UpdateVar string string | TargetNotify | SetStopped

record wait_state =
  ws_locked :: bool
  ws_Stopped :: bool
  ws_LocalVars :: "string \<rightharpoonup> string"
  ws_target :: "target_action list"
  ws_pc :: wait_pc
  ws_val :: string
  ws_exists :: bool

text \<open>
  The state in which the waiter starts to wait for \<open>key\<close>: its first query gave
  \<open>("", false)\<close>; the target has \<open>todo\<close> left to do.
\<close>

definition wait_init :: "(string \<rightharpoonup> string) \<Rightarrow> target_action list \<Rightarrow> wait_state" where
  "wait_init vars todo =
     \<lparr>ws_locked = False, ws_Stopped = False, ws_LocalVars = vars, ws_target = todo,
      ws_pc = XW_Lock, ws_val = '''', ws_exists = False\<rparr>"

text \<open>
  The events of a schedule: a step of the waiter, a step of the target, a broadcast
  by another task. The lock is taken by the waiter only; \<open>None\<close> is an event that
  cannot happen.
\<close>

datatype wait_event = StepWaiter | StepTarget | OtherNotify

definition wake :: "wait_pc \<Rightarrow> wait_pc" where
  "wake p = (if p = XW_Sleeping then XW_Woken else p)"

definition waiter_step :: "string \<Rightarrow> wait_state \<Rightarrow> wait_state option" where
  "waiter_step key s =
     (case ws_pc s of
        XW_Lock \<Rightarrow> if ws_locked s then None else Some (s\<lparr>ws_locked := True, ws_pc := XW_Test\<rparr>)
      | XW_Test \<Rightarrow>
          if \<not> ws_Stopped s then Some (s\<lparr>ws_pc := XW_Query\<rparr>)
          else Some (s\<lparr>ws_pc := XW_Unlock\<rparr>)
      | XW_Query \<Rightarrow>
          (case localVars_QueryVar (ws_LocalVars s) key of
             (val, exists) \<Rightarrow>
               if exists then Some (s\<lparr>ws_val := val, ws_exists := exists, ws_pc := XW_Unlock\<rparr>)
               else Some (s\<lparr>ws_val := val, ws_exists := exists, ws_pc := XW_Wait\<rparr>))
      | XW_Wait \<Rightarrow> Some (s\<lparr>ws_locked := False, ws_pc := XW_Sleeping\<rparr>)
      | XW_Sleeping \<Rightarrow> None
      | XW_Woken \<Rightarrow>
          if ws_locked s then None else Some (s\<lparr>ws_locked := True, ws_pc := XW_Test\<rparr>)
      | XW_Unlock \<Rightarrow>
          Some (s\<lparr>ws_locked := False, ws_pc := XW_Done (ws_val s) (ws_exists s)\<rparr>)
      | XW_Done val exists \<Rightarrow> None)"

definition target_step :: "wait_state \<Rightarrow> wait_state option" where
  "target_step s =
     (case ws_target s of
        [] \<Rightarrow> None
      | UpdateVar name v # rest \<Rightarrow>
          Some (s\<lparr>ws_LocalVars := (ws_LocalVars s)(name \<mapsto> v), ws_target := rest\<rparr>)
      | TargetNotify # rest \<Rightarrow> Some (s\<lparr>ws_pc := wake (ws_pc s), ws_target := rest\<rparr>)
      | SetStopped # rest \<Rightarrow> Some (s\<lparr>ws_Stopped := True, ws_target := rest\<rparr>))"

definition wait_event :: "string \<Rightarrow> wait_state \<Rightarrow> wait_event \<Rightarrow> wait_state option" where
  "wait_event key s ev =
     (case ev of
        StepWaiter \<Rightarrow> waiter_step key s
      | StepTarget \<Rightarrow> target_step s
      | OtherNotify \<Rightarrow> Some (s\<lparr>ws_pc := wake (ws_pc s)\<rparr>))"

fun wait_run :: "string \<Rightarrow> wait_state \<Rightarrow> wait_event list \<Rightarrow> wait_state option" where
  "wait_run key s [] = Some s"
| "wait_run key s (ev # evs) =
     (case wait_event key s ev of
        None \<Rightarrow> None
      | Some s1 \<Rightarrow> wait_run key s1 evs)"

text \<open>
  The end of the task of an instance whose container did not start: nothing is
  published, \<open>is.Stopped = true\<close>, \<open>cs.Notify()\<close>. And a schedule: the waiter takes
  the lock, finds \<open>Stopped\<close> false and the key absent; the target sets \<open>Stopped\<close> and
  broadcasts; the node of the target broadcasts at its own end; the waiter calls
  \<open>Wait()\<close>.
\<close>

definition ex_target :: "target_action list" where
  "ex_target = [SetStopped, TargetNotify]"

definition ex_wait_sched :: "wait_event list" where
  "ex_wait_sched =
     [StepWaiter, StepWaiter, StepWaiter, StepTarget, StepTarget, OtherNotify, StepWaiter]"

text \<open>
  The invariant of a wait for a key that is not in the target's scope and that the
  target never stores: the key stays absent, and the results of the waiter stay
  \<open>("", false)\<close>.
\<close>

definition never_stored :: "string \<Rightarrow> wait_state \<Rightarrow> bool" where
  "never_stored key s \<longleftrightarrow>
     ws_LocalVars s key = None \<and> (\<forall>v. UpdateVar key v \<notin> set (ws_target s)) \<and>
     ws_val s = '''' \<and> \<not> ws_exists s \<and>
     (\<forall>val exists. ws_pc s = XW_Done val exists \<longrightarrow> val = '''' \<and> \<not> exists)"

section \<open>Properties\<close>

lemma instancesAnyError_iff:
  "instancesAnyError xs \<longleftrightarrow> (\<exists>i \<in> set xs. is_Error i \<noteq> None)"
  by (induction xs) auto

text \<open>
  C8. \<open>AnyError()\<close> is true if and only if some node of the activation has a non-nil
  error field, or some instance of some node has a non-nil error field.
\<close>

theorem AnyError_iff:
  "CloudState_AnyError nodes \<longleftrightarrow>
     (\<exists>n \<in> set nodes. ns_Error n \<noteq> None \<or>
        (\<exists>i \<in> set (ns_Instances n). is_Error i \<noteq> None))"
  by (induction nodes) (auto simp: NodeState_AnyError_def instancesAnyError_iff)

theorem AnyError_iff_witness:
  "CloudState_AnyError [ex_node ''a'' None [ex_instance None],
                        ex_node ''b'' None [ex_instance None, ex_instance (Some errorStartTimeout)]]
   \<and> \<not> CloudState_AnyError [ex_node ''a'' None [ex_instance None]]"
  using AnyError_iff [of "[ex_node ''a'' None [ex_instance None],
                        ex_node ''b'' None [ex_instance None, ex_instance (Some errorStartTimeout)]]"]
    AnyError_iff [of "[ex_node ''a'' None [ex_instance None]]"]
  by (simp add: ex_node_def ex_instance_def)

subsection \<open>Substitute\<close>

lemma varRegExp_match_Some:
  "varRegExp_match s = Some n \<Longrightarrow>
     \<exists>name post. s = ''%('' @ name @ '')'' @ post \<and> name \<noteq> [] \<and> (\<forall>c \<in> set name. varChar c)
        \<and> n = length name + 3"
proof (induction s rule: varRegExp_match.induct)
  case (1 a b rest)
  then obtain c post where d: "dropWhile varChar rest = c # post"
    and t: "takeWhile varChar rest \<noteq> []" and c: "c = CHR '')''"
    and ab: "a = CHR ''%''" "b = CHR ''(''"
    and n: "n = length (takeWhile varChar rest) + 3"
    by (auto split: if_splits list.splits)
  have "rest = takeWhile varChar rest @ dropWhile varChar rest" by simp
  with d c have "rest = takeWhile varChar rest @ '')'' @ post" by simp
  moreover have "\<forall>x \<in> set (takeWhile varChar rest). varChar x"
    by (auto dest: set_takeWhileD)
  ultimately show ?case using ab t n by auto
qed simp_all

lemma varRegExp_match_complete:
  assumes "name \<noteq> []" "\<forall>c \<in> set name. varChar c"
  shows "varRegExp_match (''%('' @ name @ '')'' @ post) = Some (length name + 3)"
proof -
  have nv: "\<not> varChar (CHR '')'')" by (simp add: varChar_def)
  have t: "takeWhile varChar (name @ CHR '')'' # post) = name"
    using assms nv by (simp add: takeWhile_append2)
  have d: "dropWhile varChar (name @ CHR '')'' # post) = CHR '')'' # post"
    using assms nv by (simp add: dropWhile_append2)
  show ?thesis using t d assms by simp
qed

text \<open>Every match lies inside the text and is at least four characters long, so the
  slices taken by \<open>substLoop\<close> are within bounds.\<close>

lemma FindAllStringIndex_bounds:
  "(a, b) \<in> set (FindAllStringIndex_from pos s) \<Longrightarrow> pos \<le> a \<and> a + 4 \<le> b \<and> b \<le> pos + length s"
proof (induction pos s rule: FindAllStringIndex_from.induct)
  case (1 pos)
  then show ?case by simp
next
  case (2 pos c cs)
  show ?case
  proof (cases "varRegExp_match (c # cs)")
    case None
    with 2 show ?thesis by auto
  next
    case (Some n)
    from varRegExp_match_Some [OF Some] obtain name post where
      s: "c # cs = ''%('' @ name @ '')'' @ post" and ne: "name \<noteq> []" and n: "n = length name + 3"
      by blast
    from ne have "1 \<le> length name" by (cases name) auto
    with n have n4: "4 \<le> n" by simp
    from s n have nl: "n \<le> length (c # cs)"
      by (metis add.commute add_2_eq_Suc' add_Suc_right le_add1 length_Cons length_append
          list.size(3) numeral_3_eq_3 One_nat_def append_Cons append_Nil)
    from 2(3) Some consider "(a, b) = (pos, pos + n)"
      | "(a, b) \<in> set (FindAllStringIndex_from (pos + n) (drop (n - 1) cs))" by auto
    then show ?thesis
    proof cases
      case 1
      with n4 nl show ?thesis by auto
    next
      case 2
      from "2.IH"(2) [OF Some 2] n4 nl show ?thesis by auto
    qed
  qed
qed

lemma FindAll_Nil:
  "(\<forall>pre s. str = pre @ s \<longrightarrow> varRegExp_match s = None) \<Longrightarrow>
     FindAllStringIndex_from pos str = []"
proof (induction str arbitrary: pos)
  case Nil
  then show ?case by simp
next
  case (Cons c cs)
  have h: "varRegExp_match (c # cs) = None" using Cons.prems by (metis append_Nil)
  have "\<forall>pre s. cs = pre @ s \<longrightarrow> varRegExp_match s = None"
    using Cons.prems by (metis append_Cons)
  then show ?case using Cons.IH h by simp
qed

lemma FindAll_not_Nil:
  "str = pre @ ''%('' @ name @ '')'' @ post \<Longrightarrow> name \<noteq> [] \<Longrightarrow> \<forall>c \<in> set name. varChar c \<Longrightarrow>
     FindAllStringIndex_from pos str \<noteq> []"
proof (induction pre arbitrary: str pos)
  case Nil
  then show ?case using varRegExp_match_complete [of name post] by simp
next
  case (Cons p pre)
  then obtain cs where str: "str = p # cs" and cs: "cs = pre @ ''%('' @ name @ '')'' @ post"
    by simp
  show ?case
  proof (cases "varRegExp_match (p # cs)")
    case None
    with Cons.IH [OF cs Cons.prems(2,3)] str show ?thesis by simp
  next
    case (Some n)
    with str show ?thesis by simp
  qed
qed

lemma no_reference_iff:
  "(\<exists>pre name post. str = pre @ ''%('' @ name @ '')'' @ post \<and> name \<noteq> []
       \<and> (\<forall>c \<in> set name. varChar c)) \<longleftrightarrow> FindAllStringIndex str \<noteq> []"
proof
  assume "\<exists>pre name post. str = pre @ ''%('' @ name @ '')'' @ post \<and> name \<noteq> []
       \<and> (\<forall>c \<in> set name. varChar c)"
  then show "FindAllStringIndex str \<noteq> []"
    unfolding FindAllStringIndex_def using FindAll_not_Nil by blast
next
  assume ne: "FindAllStringIndex str \<noteq> []"
  show "\<exists>pre name post. str = pre @ ''%('' @ name @ '')'' @ post \<and> name \<noteq> []
       \<and> (\<forall>c \<in> set name. varChar c)"
  proof (rule ccontr)
    assume no: "\<not> ?thesis"
    have "\<forall>pre s. str = pre @ s \<longrightarrow> varRegExp_match s = None"
    proof (intro allI impI)
      fix pre s assume ts: "str = pre @ s"
      show "varRegExp_match s = None"
      proof (cases "varRegExp_match s")
        case (Some n)
        from varRegExp_match_Some [OF Some] ts no show ?thesis by blast
      qed simp
    qed
    with ne show False by (simp add: FindAllStringIndex_def FindAll_Nil)
  qed
qed

text \<open>
  C10. On a text with no macro reference, that is with no substring \<open>%(name)\<close> whose
  name is a non-empty run of characters of the class \<open>[^()]\<close>, \<open>Substitute\<close> returns
  the text unchanged, whatever the variable lookup answers.
\<close>

theorem Substitute_macro_free:
  assumes "\<not> (\<exists>pre name post. text = pre @ ''%('' @ name @ '')'' @ post \<and> name \<noteq> []
              \<and> (\<forall>c \<in> set name. varChar c))"
  shows "Substitute q text = text"
proof -
  from assms have "FindAllStringIndex text = []"
    using no_reference_iff [of "text"] by blast
  then show ?thesis by (simp add: Substitute_def)
qed

theorem Substitute_macro_free_witness:
  "\<not> (\<exists>pre name post. ''run %( on ()'' = pre @ ''%('' @ name @ '')'' @ post \<and> name \<noteq> []
              \<and> (\<forall>c \<in> set name. varChar c))
   \<and> Substitute (\<lambda>n. (''v'', True)) ''run %( on ()'' = ''run %( on ()''"
proof -
  have h: "\<not> (\<exists>pre name post. ''run %( on ()'' = pre @ ''%('' @ name @ '')'' @ post \<and> name \<noteq> []
              \<and> (\<forall>c \<in> set name. varChar c))"
    unfolding no_reference_iff by (simp add: FindAllStringIndex_def varChar_def)
  from h Substitute_macro_free [OF h] show ?thesis by blast
qed

text \<open>
  C3. The claim is that text outside the references is left intact. At the text
  \<open>a%(x)bc\<close> the character \<open>b\<close> that follows the reference is lost, both when \<open>x\<close> is
  unresolved (result \<open>ac\<close>, not \<open>abc\<close>) and when it resolves to \<open>V\<close> (result \<open>aVc\<close>,
  not \<open>aVbc\<close>): after a match the loop sets \<open>curpos = end + 1\<close>, and \<open>end\<close> is already
  the offset of the first character after the match.
\<close>

theorem Substitute_drops_following_char:
  "Substitute (\<lambda>n. ('''', False)) ''a%(x)bc'' = ''ac'' \<and>
   Substitute (\<lambda>n. if n = ''x'' then (''V'', True) else ('''', False)) ''a%(x)bc'' = ''aVc''"
  by (simp add: Substitute_def FindAllStringIndex_def slice_def varChar_def)

subsection \<open>Library functions\<close>

lemma strings_Index_ge: "- 1 \<le> strings_Index s c"
  by (induction s) (auto simp: Let_def)

lemma strings_Index_absent: "c \<notin> set s \<Longrightarrow> strings_Index s c = - 1"
  by (induction s) (auto simp: Let_def)

lemma strings_Index_first:
  "c \<notin> set pre \<Longrightarrow> strings_Index (pre @ c # post) c = int (length pre)"
  by (induction pre) (auto simp: Let_def)

lemma strings_LastIndex_absent: "c \<notin> set s \<Longrightarrow> strings_LastIndex s c = - 1"
  by (induction s) (auto simp: Let_def)

lemma strings_LastIndex_last:
  "c \<notin> set post \<Longrightarrow> strings_LastIndex (pre @ c # post) c = int (length pre)"
  by (induction pre) (auto simp: Let_def strings_LastIndex_absent)

lemma findNode_from_None_iff:
  "findNode_from i nodes name = None \<longleftrightarrow> name \<notin> ns_Name ` set nodes"
  by (induction nodes arbitrary: i) auto

lemma findNode_None_iff:
  "findNode ctx name = None \<longleftrightarrow> name \<notin> ns_Name ` set (ctx_Nodes ctx)"
  by (simp add: findNode_def findNode_from_None_iff)

subsection \<open>Volume mappings\<close>

text \<open>
  The body of the loop on a mapping \<open>src:dst\<close> (\<open>src\<close> is the non-empty text before
  the first colon): a source that is not absolute is replaced by the cleaned join of
  the data directory and the source, an absolute source is kept, and the destination
  is unchanged.
\<close>

lemma volumeMap_split:
  assumes "src \<noteq> []" and "CHR '':'' \<notin> set src"
  shows "volumeMap dataDir (src @ '':'' @ dst) =
           (if path_IsAbs src then src else path_Clean (path_Join [dataDir, src])) @ '':'' @ dst"
proof -
  have "strings_Index (src @ '':'' @ dst) (CHR '':'') = int (length src)"
    using strings_Index_first [OF assms(2), of dst] by simp
  moreover have "0 < length src" using assms(1) by simp
  ultimately show ?thesis by (simp add: volumeMap_def Let_def)
qed

subsection \<open>Cross-references\<close>

text \<open>
  C7. A malformed reference resolves as not-found, without entering the wait loop.
  For the keys \<open>ip\<close> and \<open>mac\<close>: a reference with no \<open>-\<close>; or a reference \<open>node-idx\<close>
  (split at the last \<open>-\<close>) whose node name is unknown, whose index is not a number
  for \<open>strconv.Atoi\<close>, or whose index is outside the instances of the node found.
  For the key \<open>instances\<close>: a reference to an unknown node name.
\<close>

theorem malformed_xref_not_found:
  "((key = ''ip'' \<or> key = ''mac'') \<and>
    (CHR ''-'' \<notin> set ref \<or>
     (\<exists>node idx. ref = node @ ''-'' @ idx \<and> CHR ''-'' \<notin> set idx \<and>
        (node \<notin> ns_Name ` set (ctx_Nodes ctx) \<or>
         strconv_Atoi idx = None \<or>
         (\<exists>n i. findNode ctx node = Some n \<and> strconv_Atoi idx = Some i \<and>
                (i < 0 \<or> i \<ge> int (length (ns_Instances (ctx_Nodes ctx ! n))))))))
    \<longrightarrow> providerXref_QueryVar (key @ '':'' @ ref) ctx = Return '''' False)
   \<and> (ref \<notin> ns_Name ` set (ctx_Nodes ctx)
    \<longrightarrow> providerXref_QueryVar (''instances:'' @ ref) ctx = Return '''' False)"
proof (intro conjI impI)
  assume "ref \<notin> ns_Name ` set (ctx_Nodes ctx)"
  then have "findNode ctx ref = None" by (simp add: findNode_None_iff)
  then show "providerXref_QueryVar (''instances:'' @ ref) ctx = Return '''' False"
    by (simp add: providerXref_QueryVar_def queryNode_def Let_def)
next
  assume a: "(key = ''ip'' \<or> key = ''mac'') \<and>
    (CHR ''-'' \<notin> set ref \<or>
     (\<exists>node idx. ref = node @ ''-'' @ idx \<and> CHR ''-'' \<notin> set idx \<and>
        (node \<notin> ns_Name ` set (ctx_Nodes ctx) \<or>
         strconv_Atoi idx = None \<or>
         (\<exists>n i. findNode ctx node = Some n \<and> strconv_Atoi idx = Some i \<and>
                (i < 0 \<or> i \<ge> int (length (ns_Instances (ctx_Nodes ctx ! n))))))))"
  then have disp: "providerXref_QueryVar (key @ '':'' @ ref) ctx = queryInstance ctx ref key"
    by (auto simp: providerXref_QueryVar_def Let_def)
  from a consider (nosep) "CHR ''-'' \<notin> set ref"
    | (split) node idx where "ref = node @ ''-'' @ idx" "CHR ''-'' \<notin> set idx"
        "node \<notin> ns_Name ` set (ctx_Nodes ctx) \<or> strconv_Atoi idx = None \<or>
         (\<exists>n i. findNode ctx node = Some n \<and> strconv_Atoi idx = Some i \<and>
                (i < 0 \<or> i \<ge> int (length (ns_Instances (ctx_Nodes ctx ! n)))))"
    by blast
  then have "queryInstance ctx ref key = Return '''' False"
  proof cases
    case nosep
    then show ?thesis
      by (simp add: queryInstance_def strings_LastIndex_absent)
  next
    case split
    have pos: "strings_LastIndex ref (CHR ''-'') = int (length node)"
      using strings_LastIndex_last [OF split(2), of node] split(1) by simp
    show ?thesis
    proof (cases "node = []")
      case True
      with pos show ?thesis by (simp add: queryInstance_def)
    next
      case False
      have tk: "take (length node) ref = node" and dr: "drop (length node + 1) ref = idx"
        using split(1) by simp_all
      from split(3) show ?thesis
        using False pos tk dr
        by (auto simp: queryInstance_def Let_def findNode_None_iff [symmetric]
            split: option.splits)
    qed
  qed
  with disp show "providerXref_QueryVar (key @ '':'' @ ref) ctx = Return '''' False" by simp
qed

theorem malformed_xref_not_found_witness:
  "providerXref_QueryVar ''ip:web'' ex_ctx = Return '''' False \<and>
   providerXref_QueryVar ''mac:web-x1'' ex_ctx = Return '''' False \<and>
   providerXref_QueryVar ''ip:web-2'' ex_ctx = Return '''' False \<and>
   providerXref_QueryVar ''ip:cache-0'' ex_ctx = Return '''' False \<and>
   providerXref_QueryVar ''instances:cache'' ex_ctx = Return '''' False"
proof -
  have names: "ns_Name ` set (ctx_Nodes ex_ctx) = {''web'', ''db''}"
    by (auto simp: ex_ctx_def ns_Name_def ex_def_def)
  have web: "findNode ex_ctx ''web'' = Some 0"
    by (simp add: findNode_def ex_ctx_def ns_Name_def ex_def_def)
  have len: "length (ns_Instances (ctx_Nodes ex_ctx ! 0)) = 2"
    by (simp add: ex_ctx_def)
  have a2: "strconv_Atoi ''2'' = Some 2" "strconv_Atoi ''x1'' = None"
    by (simp_all add: strconv_Atoi_def isDigit_def digitVal_def)
  have 1: "providerXref_QueryVar ''ip:web'' ex_ctx = Return '''' False"
    using malformed_xref_not_found [of "''ip''" "''web''" ex_ctx] by simp
  have "\<exists>node idx. ''web-x1'' = node @ ''-'' @ idx \<and> CHR ''-'' \<notin> set idx \<and>
        (node \<notin> ns_Name ` set (ctx_Nodes ex_ctx) \<or> strconv_Atoi idx = None \<or>
         (\<exists>n i. findNode ex_ctx node = Some n \<and> strconv_Atoi idx = Some i \<and>
                (i < 0 \<or> i \<ge> int (length (ns_Instances (ctx_Nodes ex_ctx ! n))))))"
    by (rule exI [of _ "''web''"], rule exI [of _ "''x1''"]) (simp add: a2)
  then have 2: "providerXref_QueryVar ''mac:web-x1'' ex_ctx = Return '''' False"
    using malformed_xref_not_found [of "''mac''" "''web-x1''" ex_ctx] by simp
  have "\<exists>node idx. ''web-2'' = node @ ''-'' @ idx \<and> CHR ''-'' \<notin> set idx \<and>
        (node \<notin> ns_Name ` set (ctx_Nodes ex_ctx) \<or> strconv_Atoi idx = None \<or>
         (\<exists>n i. findNode ex_ctx node = Some n \<and> strconv_Atoi idx = Some i \<and>
                (i < 0 \<or> i \<ge> int (length (ns_Instances (ctx_Nodes ex_ctx ! n))))))"
    by (rule exI [of _ "''web''"], rule exI [of _ "''2''"]) (simp add: a2 web len)
  then have 3: "providerXref_QueryVar ''ip:web-2'' ex_ctx = Return '''' False"
    using malformed_xref_not_found [of "''ip''" "''web-2''" ex_ctx] by simp
  have "\<exists>node idx. ''cache-0'' = node @ ''-'' @ idx \<and> CHR ''-'' \<notin> set idx \<and>
        (node \<notin> ns_Name ` set (ctx_Nodes ex_ctx) \<or> strconv_Atoi idx = None \<or>
         (\<exists>n i. findNode ex_ctx node = Some n \<and> strconv_Atoi idx = Some i \<and>
                (i < 0 \<or> i \<ge> int (length (ns_Instances (ctx_Nodes ex_ctx ! n))))))"
    by (rule exI [of _ "''cache''"], rule exI [of _ "''0''"]) (simp add: names)
  then have 4: "providerXref_QueryVar ''ip:cache-0'' ex_ctx = Return '''' False"
    using malformed_xref_not_found [of "''ip''" "''cache-0''" ex_ctx] by simp
  have 5: "providerXref_QueryVar ''instances:cache'' ex_ctx = Return '''' False"
    using malformed_xref_not_found [of "''ip''" "''cache''" ex_ctx] by (simp add: names)
  from 1 2 3 4 5 show ?thesis by blast
qed

subsection \<open>Container driver\<close>

lemma call_simp [simp]: "call env a tr = (env tr a, tr @ [a])"
  by (simp add: call_def)

lemma errOf_simps [simp]: "errOf (Inl e) = Some e" "errOf (Inr x) = None"
  by (simp_all add: errOf_def)

text \<open>
  C4. \<open>Create\<close> finds a marker file naming the container \<open>old\<close>, and the engine
  reports \<open>old\<close> running. Then \<open>Create\<close> stops \<open>old\<close> before anything else; if the marker file
  can be removed (or is already gone) it runs the create command with the argument
  \<open>--volumes-from=old\<close>; if that succeeds it force-removes \<open>old\<close> afterwards and
  returns the new id, and if it fails it writes \<open>old\<close> back to the marker file and
  returns the error. If the marker file cannot be removed, the error is returned
  with no create command run.
\<close>

theorem Create_supersedes_running:
  fixes env :: env and tr :: trace and cidfile old out :: string and args :: "string list"
  assumes "env tr (ReadFile cidfile) = Inr old" and "old \<noteq> ''''"
    and "env (tr @ [ReadFile cidfile])
           (CmdOutput [''inspect'', ''-f'', ''{{.State.Running}}'', old]) = Inr out"
    and "strings_Trim out whitespace = ''true''"
  defines "t0 \<equiv> tr @ [ReadFile cidfile,
                        CmdOutput [''inspect'', ''-f'', ''{{.State.Running}}'', old],
                        CmdRun [''stop'', old]]"
  defines "create \<equiv> CmdOutput ([''create'', ''--cidfile='' @ cidfile] @ args
                                 @ [''--volumes-from='' @ old])"
  shows "docker_Create env cidfile args tr =
     (if errOf (env t0 (RemoveFile cidfile)) \<noteq> None
         \<and> errOf (env t0 (RemoveFile cidfile)) \<noteq> Some NotExist
      then (('''', errOf (env t0 (RemoveFile cidfile))), t0 @ [RemoveFile cidfile])
      else
        (case env (t0 @ [RemoveFile cidfile]) create of
           Inr newOut \<Rightarrow>
             ((strings_Trim newOut whitespace, None),
              t0 @ [RemoveFile cidfile, create, CmdRun [''rm'', ''--force'', old]])
         | Inl e \<Rightarrow>
             (('''', Some e), t0 @ [RemoveFile cidfile, create, WriteFile cidfile old])))"
proof -
  have prior: "createPrior env cidfile ([''create'', ''--cidfile='' @ cidfile] @ args) tr =
      ((old, [''create'', ''--cidfile='' @ cidfile] @ args @ [''--volumes-from='' @ old]), t0)"
    using assms(1-4)
    by (simp add: createPrior_def docker_isRunning_def docker_Inspect_def docker_cmdOutput_def
        docker_Stop_def t0_def)
  show ?thesis
    unfolding docker_Create_def prior
    using assms(2)
    by (simp add: docker_cmdOutput_def docker_RmForce_def create_def split: sum.splits)
qed

theorem Create_supersedes_running_witness:
  "docker_Create (ex_env ''old1'' ''true'') ''/d/web.0.cid'' [''img''] [] =
     ((''new1'', None),
      [ReadFile ''/d/web.0.cid'',
       CmdOutput [''inspect'', ''-f'', ''{{.State.Running}}'', ''old1''],
       CmdRun [''stop'', ''old1''],
       RemoveFile ''/d/web.0.cid'',
       CmdOutput [''create'', ''--cidfile=/d/web.0.cid'', ''img'', ''--volumes-from=old1''],
       CmdRun [''rm'', ''--force'', ''old1'']]) \<and>
   docker_Create (ex_env_fail ''old1'' ''true'') ''/d/web.0.cid'' [''img''] [] =
     (('''', Some (OSError ''exit status 1'')),
      [ReadFile ''/d/web.0.cid'',
       CmdOutput [''inspect'', ''-f'', ''{{.State.Running}}'', ''old1''],
       CmdRun [''stop'', ''old1''],
       RemoveFile ''/d/web.0.cid'',
       CmdOutput [''create'', ''--cidfile=/d/web.0.cid'', ''img'', ''--volumes-from=old1''],
       WriteFile ''/d/web.0.cid'' ''old1''])"
proof -
  have tr: "strings_Trim (''true'' @ nl) whitespace = ''true''"
    "strings_Trim (''new1'' @ nl) whitespace = ''new1''"
    by (simp_all add: strings_Trim_def whitespace_def nl_def)
  have ok: "docker_Create (ex_env ''old1'' ''true'') ''/d/web.0.cid'' [''img''] [] =
     ((''new1'', None),
      [ReadFile ''/d/web.0.cid'',
       CmdOutput [''inspect'', ''-f'', ''{{.State.Running}}'', ''old1''],
       CmdRun [''stop'', ''old1''],
       RemoveFile ''/d/web.0.cid'',
       CmdOutput [''create'', ''--cidfile=/d/web.0.cid'', ''img'', ''--volumes-from=old1''],
       CmdRun [''rm'', ''--force'', ''old1'']])"
    using Create_supersedes_running [where env = "ex_env ''old1'' ''true''" and tr = "[]"
        and cidfile = "''/d/web.0.cid''" and old = "''old1''" and out = "''true'' @ nl"
        and args = "[''img'']"] tr
    by (simp add: ex_env_def)
  have fail: "docker_Create (ex_env_fail ''old1'' ''true'') ''/d/web.0.cid'' [''img''] [] =
     (('''', Some (OSError ''exit status 1'')),
      [ReadFile ''/d/web.0.cid'',
       CmdOutput [''inspect'', ''-f'', ''{{.State.Running}}'', ''old1''],
       CmdRun [''stop'', ''old1''],
       RemoveFile ''/d/web.0.cid'',
       CmdOutput [''create'', ''--cidfile=/d/web.0.cid'', ''img'', ''--volumes-from=old1''],
       WriteFile ''/d/web.0.cid'' ''old1''])"
    using Create_supersedes_running [where env = "ex_env_fail ''old1'' ''true''" and tr = "[]"
        and cidfile = "''/d/web.0.cid''" and old = "''old1''" and out = "''true'' @ nl"
        and args = "[''img'']"] tr
    by (simp add: ex_env_fail_def ex_env_def)
  from ok fail show ?thesis by (rule conjI)
qed

lemma isRunning_probe:
  "docker_isRunning env cid tr =
     ((case env tr (probe cid) of Inl e \<Rightarrow> (False, Some e)
       | Inr out \<Rightarrow> (strings_Trim out whitespace = ''true'', None)), tr @ [probe cid])"
  by (simp add: docker_isRunning_def docker_Inspect_def docker_cmdOutput_def probe_def
      split: sum.splits)

lemma pollTrace_Suc:
  "pollTrace cid (Suc k) = pollTrace cid k @ [probe cid, Sleep ((k + 1) * 100)]"
  by (simp add: pollTrace_def)

lemma pollTrace_0: "pollTrace cid 0 = []"
  by (simp add: pollTrace_def)

lemma startPoll_exhausted:
  "i \<le> 8 \<Longrightarrow> (\<forall>k. i \<le> k \<and> k < 8 \<longrightarrow> probeFails env cid (base @ pollTrace cid k)) \<Longrightarrow>
     startPoll env cid i (base @ pollTrace cid i) =
       (Some errorStartTimeout, base @ pollTrace cid 8)"
proof (induction "8 - i" arbitrary: i)
  case 0
  then have "i = 8" by simp
  then show ?case by (simp add: startPoll.simps [of env cid 8])
next
  case (Suc d)
  then have i: "i < 8" by simp
  have fails: "probeFails env cid (base @ pollTrace cid i)" using Suc.prems(2) i by simp
  have step: "startPoll env cid i (base @ pollTrace cid i) =
      startPoll env cid (i + 1) (base @ pollTrace cid (Suc i))"
    using i fails
    by (subst startPoll.simps)
      (auto simp: isRunning_probe probeFails_def pollTrace_Suc split: sum.splits)
  have "startPoll env cid (i + 1) (base @ pollTrace cid (i + 1)) =
      (Some errorStartTimeout, base @ pollTrace cid 8)"
    using Suc.hyps(1) [of "i + 1"] Suc.hyps(2) Suc.prems i by simp
  with step show ?case by simp
qed

lemma startPoll_confirmed:
  "i \<le> j \<Longrightarrow> j < 8 \<Longrightarrow> (\<forall>k. i \<le> k \<and> k < j \<longrightarrow> probeFails env cid (base @ pollTrace cid k)) \<Longrightarrow>
     \<not> probeFails env cid (base @ pollTrace cid j) \<Longrightarrow>
     startPoll env cid i (base @ pollTrace cid i) = (None, base @ pollTrace cid j @ [probe cid])"
proof (induction "j - i" arbitrary: i)
  case 0
  then have ij: "i = j" by simp
  show ?case
    using "0.prems"(2,4) unfolding ij
    by (subst startPoll.simps)
      (auto simp: isRunning_probe probeFails_def split: sum.splits)
next
  case (Suc d)
  then have i: "i < j" "i < 8" by simp_all
  have fails: "probeFails env cid (base @ pollTrace cid i)" using Suc.prems(3) i by simp
  have step: "startPoll env cid i (base @ pollTrace cid i) =
      startPoll env cid (i + 1) (base @ pollTrace cid (Suc i))"
    using i fails
    by (subst startPoll.simps)
      (auto simp: isRunning_probe probeFails_def pollTrace_Suc split: sum.splits)
  have "startPoll env cid (i + 1) (base @ pollTrace cid (i + 1)) =
      (None, base @ pollTrace cid j @ [probe cid])"
    using Suc.hyps(1) [of "i + 1"] Suc.hyps(2) Suc.prems i by simp
  with step show ?case by simp
qed



lemma Start_attached_timeout:
  assumes "env tr (CmdStart [''start'', ''-a'', cid]) = Inr x"
    and "\<forall>k < 8. probeFails env cid
            (tr @ [CmdStart [''start'', ''-a'', cid], WaitGroupAdd] @ pollTrace cid k)"
  shows "docker_Start env cid True tr =
     (Some errorStartTimeout,
      tr @ [CmdStart [''start'', ''-a'', cid], WaitGroupAdd] @ pollTrace cid 8)"
  using assms
    startPoll_exhausted [of 0 env cid "tr @ [CmdStart [''start'', ''-a'', cid], WaitGroupAdd]"]
  by (simp add: docker_Start_def Let_def pollTrace_0)

lemma Start_attached_confirmed:
  assumes "env tr (CmdStart [''start'', ''-a'', cid]) = Inr x" and "j < 8"
    and "\<forall>k < j. probeFails env cid
            (tr @ [CmdStart [''start'', ''-a'', cid], WaitGroupAdd] @ pollTrace cid k)"
    and "\<not> probeFails env cid
            (tr @ [CmdStart [''start'', ''-a'', cid], WaitGroupAdd] @ pollTrace cid j)"
  shows "docker_Start env cid True tr =
     (None, tr @ [CmdStart [''start'', ''-a'', cid], WaitGroupAdd] @ pollTrace cid j
              @ [probe cid])"
  using assms
    startPoll_confirmed [of 0 j env cid "tr @ [CmdStart [''start'', ''-a'', cid], WaitGroupAdd]"]
  by (simp add: docker_Start_def Let_def pollTrace_0)

subsection \<open>Instance lifecycle\<close>

lemma cleanElems_nonempty:
  "[] \<notin> set out \<Longrightarrow> [] \<notin> set (cleanElems rooted out es)"
  by (induction rooted out es rule: cleanElems.induct) (auto split: list.splits)

lemma joinWith_nonempty: "xs \<noteq> [] \<Longrightarrow> [] \<notin> set xs \<Longrightarrow> joinWith sep xs \<noteq> []"
  by (induction sep xs rule: joinWith.induct) auto

lemma path_Clean_nonempty: "path_Clean p \<noteq> []"
proof -
  have "[] \<notin> set (rev (cleanElems (path_IsAbs p) [] (splitOn (CHR ''/'') p)))"
    using cleanElems_nonempty [of "[]"] by simp
  then have "rev (cleanElems (path_IsAbs p) [] (splitOn (CHR ''/'') p)) \<noteq> [] \<Longrightarrow>
      joinWith ''/'' (rev (cleanElems (path_IsAbs p) [] (splitOn (CHR ''/'') p))) \<noteq> []"
    by (rule joinWith_nonempty [rotated])
  then show ?thesis
    by (auto simp: path_Clean_def Let_def)
qed

lemma path_Join_nonempty:
  assumes "\<exists>e \<in> set elem. e \<noteq> []"
  shows "path_Join elem \<noteq> []"
proof -
  from assms have "dropWhile (\<lambda>e. e = []) elem \<noteq> []"
    by (simp add: dropWhile_eq_Nil_conv)
  then obtain r rs where "dropWhile (\<lambda>e. e = []) elem = r # rs"
    by (cases "dropWhile (\<lambda>e. e = []) elem") simp_all
  then have "path_Join elem = path_Clean (joinWith ''/'' (r # rs))"
    by (simp add: path_Join_def)
  then show ?thesis by (simp add: path_Clean_nonempty)
qed

text \<open>
  What \<open>run\<close> does when the start of the container it created fails: it force-removes
  the container, removes the marker file, and returns the error of the start.
\<close>

lemma run_start_failed:
  fixes env :: env and ce :: CloudEnv and ns :: NodeState and index :: nat
    and is0 :: InstanceState and tr tr1 tr2 tr3 :: trace and cid :: string
  defines "name \<equiv> ns_Name ns @ ''.'' @ showNat index"
  defines "cidfile \<equiv> path_Join [cs_stateDir ce, name @ ''.cid'']"
  assumes wrapper: "(if hasFlag (ce_RunFlags ce) Run
                     then runWrapper env (path_Join [cs_stateDir ce, name @ ''.run''])
                            (path_Join [cs_workspace ce, name @ ''.run'', ''cmd.sh'']) tr
                     else (None, tr)) = (None, tr1)"
    and create: "docker_Create env cidfile (ns_DockerArgs ns) tr1 = ((cid, None), tr2)"
    and cid: "cid \<noteq> ''''"
    and start: "docker_Start env cid (\<not> hasFlag (ce_RunFlags ce) Detach) tr2 = (Some e, tr3)"
  shows "fst (fst (InstanceState_run env q ce ns index is0 tr)) = Some e
       \<and> is_ContainerId (snd (fst (InstanceState_run env q ce ns index is0 tr))) = ''''
       \<and> snd (InstanceState_run env q ce ns index is0 tr) =
           tr3 @ [CmdRun [''rm'', ''--force'', cid], RemoveFile cidfile]"
proof -
  have ne: "cidfile \<noteq> ''''"
    unfolding cidfile_def by (rule path_Join_nonempty) simp
  have run: "InstanceState_run env q ce ns index is0 tr =
      (case InstanceState_remove env (is0\<lparr>is_cidfile := cidfile, is_ContainerId := cid\<rparr>) tr3 of
         (is3, tr4) \<Rightarrow> ((Some e, is3), tr4))"
    unfolding InstanceState_run_def Let_def name_def [symmetric] cidfile_def [symmetric]
    apply (simp only: wrapper)
    apply (simp add: create start)
    done
  show ?thesis
    unfolding run using cid ne
    by (simp add: InstanceState_remove_def docker_RmForce_def Let_def)
qed





lemmas ex_trims = strings_Trim_def whitespace_def nl_def

lemma ex_create:
  "docker_Create (ex_env '''' running) cidfile args [] =
     ((''new1'', None),
      [ReadFile cidfile, RemoveFile cidfile, CmdOutput ([''create'', ''--cidfile='' @ cidfile] @ args)])"
  by (simp add: docker_Create_def createPrior_def docker_cmdOutput_def ex_env_def ex_trims)



subsection \<open>Node lifecycle\<close>

lemma nodeSetup_fields [simp]:
  "ns_Node (nodeSetup q ce ns) = ns_Node ns"
  "ns_Instances (nodeSetup q ce ns) = ns_Instances ns"
  "ns_Node (nodeArgs q ce ns) = ns_Node ns"
  "ns_Instances (nodeArgs q ce ns) = ns_Instances ns"
  by (simp_all add: nodeSetup_def nodeArgs_def Let_def)

lemma instanceTask_fields:
  "is_Error (fst (instanceTask env q ce ns i is0 tr)) = fst (fst (InstanceState_run env q ce ns i is0 tr))"
  "is_Stopped (fst (instanceTask env q ce ns i is0 tr))"
  by (simp_all add: instanceTask_def split: prod.splits)

text \<open>
  When the state directory cannot be made, \<open>run\<close> returns before it has assigned
  the node's logger; the task of a node as \<open>CloudEnv.Run\<close> makes it then panics in
  \<open>ns.Logger.Error\<close>.
\<close>

lemma nodeTask_panics:
  assumes "env tr (MkdirAll (cs_stateDir ce)) = Inl e" and "e \<noteq> Exist"
    and "ns_Logger ns = None"
  shows "nodeTask env ienv q iq ce ns tr = None"
  using assms by (simp add: nodeTask_def NodeState_run_def)

text \<open>
  C6. The state directory exists or can be made. If the image load fails with \<open>e\<close>,
  the task of the node ends (it does not panic) with \<open>e\<close> as the node's error, the
  instances as they were, and no instance task launched. If the image load succeeds,
  every instance task is launched, the instance \<open>i\<close> ends stopped with the error of
  its own \<open>run\<close> (whatever happens to the others), the node's error is nil, and
  \<open>AnyError\<close> on the node is true exactly when the \<open>run\<close> of some instance returned
  an error.
\<close>

theorem node_failure_policy:
  fixes env :: env and ienv :: "nat \<Rightarrow> env" and q :: "string \<Rightarrow> string \<times> bool"
    and iq :: "nat \<Rightarrow> string \<Rightarrow> string \<times> bool" and ce :: CloudEnv and ns :: NodeState
    and tr :: trace
  defines "tr1 \<equiv> tr @ [MkdirAll (cs_stateDir ce), Notify]"
  defines "load \<equiv> LoadImage (node_Image (ns_Node ns))"
  defines "launched \<equiv> nodeArgs q ce (nodeSetup q ce ns)"
  defines "n \<equiv> length (ns_Instances ns)"
  defines "R \<equiv> nodeTask env ienv q iq ce ns tr"
  defines "err \<equiv> \<lambda>i. fst (fst (InstanceState_run (ienv i) (iq i) ce launched i
                                   (ns_Instances ns ! i) []))"
  assumes dir: "errOf (env tr (MkdirAll (cs_stateDir ce))) = None
              \<or> errOf (env tr (MkdirAll (cs_stateDir ce))) = Some Exist"
  shows "(env tr1 load = Inl e \<longrightarrow>
            (\<exists>ns1. R = Some (ns1, tr1 @ [load, Notify]) \<and>
               ns_Error ns1 = Some e \<and> ns_Stopped ns1 \<and>
               ns_Instances ns1 = ns_Instances ns))
       \<and> (env tr1 load = Inr x \<longrightarrow>
            (\<exists>ns1. R = Some (ns1, tr1 @ [load] @ map GoInstance [0..<n] @ [Notify]) \<and>
               ns_Error ns1 = None \<and> ns_Stopped ns1 \<and>
               length (ns_Instances ns1) = n \<and>
               (\<forall>i < n. is_Error (ns_Instances ns1 ! i) = err i \<and>
                         is_Stopped (ns_Instances ns1 ! i)) \<and>
               (NodeState_AnyError ns1 \<longleftrightarrow> (\<exists>i < n. err i \<noteq> None))))"
proof (intro conjI impI)
  assume l: "env tr1 load = Inl e"
  have "R = Some ((nodeSetup q ce ns)\<lparr>ns_Error := Some e, ns_Stopped := True\<rparr>,
                  tr1 @ [load, Notify])"
    using dir l
    by (auto simp: R_def nodeTask_def NodeState_run_def Let_def tr1_def load_def
        nodeSetup_def)
  then show "\<exists>ns1. R = Some (ns1, tr1 @ [load, Notify]) \<and>
               ns_Error ns1 = Some e \<and> ns_Stopped ns1 \<and>
               ns_Instances ns1 = ns_Instances ns"
    by simp
next
  assume l: "env tr1 load = Inr x"
  define ns2 where "ns2 = launched\<lparr>ns_Instances :=
                    map (\<lambda>i. fst (instanceTask (ienv i) (iq i) ce launched i
                                    (ns_Instances launched ! i) [])) [0..<n],
                  ns_Error := None, ns_Stopped := True\<rparr>"
  have R: "R = Some (ns2, tr1 @ [load] @ map GoInstance [0..<n] @ [Notify])"
    using dir l
    by (auto simp: R_def nodeTask_def NodeState_run_def Let_def tr1_def load_def
        NodeState_prepareNode_def launched_def n_def ns2_def)
  have basic: "ns_Error ns2 = None" "ns_Stopped ns2" "length (ns_Instances ns2) = n"
    by (simp_all add: ns2_def)
  have inst: "ns_Instances ns2 ! i =
      fst (instanceTask (ienv i) (iq i) ce launched i (ns_Instances ns ! i) [])" if "i < n" for i
    using that by (simp add: ns2_def launched_def)
  have each: "\<forall>i < n. is_Error (ns_Instances ns2 ! i) = err i \<and>
                      is_Stopped (ns_Instances ns2 ! i)"
    by (simp add: inst instanceTask_fields err_def)
  have any: "NodeState_AnyError ns2 \<longleftrightarrow> (\<exists>i < n. err i \<noteq> None)"
    unfolding NodeState_AnyError_def instancesAnyError_iff
    using each basic(3) by (metis in_set_conv_nth)
  from R basic each any
  show "\<exists>ns1. R = Some (ns1, tr1 @ [load] @ map GoInstance [0..<n] @ [Notify]) \<and>
               ns_Error ns1 = None \<and> ns_Stopped ns1 \<and>
               length (ns_Instances ns1) = n \<and>
               (\<forall>i < n. is_Error (ns_Instances ns1 ! i) = err i \<and>
                         is_Stopped (ns_Instances ns1 ! i)) \<and>
               (NodeState_AnyError ns1 \<longleftrightarrow> (\<exists>i < n. err i \<noteq> None))"
    by blast
qed

lemma ex_run_times_out:
  assumes "\<not> hasFlag (ce_RunFlags ce) Run" and "\<not> hasFlag (ce_RunFlags ce) Detach"
  shows "fst (fst (InstanceState_run (ex_env '''' ''false'') q ce ns i is0 [])) =
           Some errorStartTimeout"
proof -
  have fails: "probeFails (ex_env '''' ''false'') ''new1'' t" for t
    by (simp add: probeFails_def probe_def ex_env_def ex_trims)
  have start: "docker_Start (ex_env '''' ''false'') ''new1'' True t =
      (Some errorStartTimeout,
       t @ [CmdStart [''start'', ''-a'', ''new1''], WaitGroupAdd] @ pollTrace ''new1'' 8)" for t
    by (rule Start_attached_timeout [where x = "''''"]) (simp_all add: fails, simp add: ex_env_def)
  show ?thesis
    using run_start_failed [where env = "ex_env '''' ''false''" and ce = ce and ns = ns
        and index = i and tr = "[]" and ?tr1.0 = "[]" and cid = "''new1''"
        and e = errorStartTimeout and q = q and ?is0.0 = is0,
        OF _ ex_create] assms start
    by simp
qed

lemma ex_run_succeeds:
  assumes "\<not> hasFlag (ce_RunFlags ce) Run" and "\<not> hasFlag (ce_RunFlags ce) Detach"
    and "\<not> hasFlag (ce_RunFlags ce) Stop"
  shows "fst (fst (InstanceState_run (ex_env '''' ''true'') q ce ns i is0 [])) = None"
proof -
  have ok: "\<not> probeFails (ex_env '''' ''true'') ''new1'' t" for t
    by (simp add: probeFails_def probe_def ex_env_def ex_trims)
  have start: "docker_Start (ex_env '''' ''true'') ''new1'' True t =
      (None, t @ [CmdStart [''start'', ''-a'', ''new1''], WaitGroupAdd] @ pollTrace ''new1'' 0
               @ [probe ''new1''])" for t
    by (rule Start_attached_confirmed [where x = "''''"]) (simp_all add: ok, simp add: ex_env_def)
  show ?thesis
    unfolding InstanceState_run_def Let_def
    by (simp add: assms ex_create start runStarted_def publishIdentity_def
        split: prod.splits)
qed

theorem node_failure_policy_witness:
  "ns_Error (fst (the (nodeTask ex_env_noimage (\<lambda>i. ex_env '''' ''true'') (\<lambda>n. ('''', False))
                    (\<lambda>i n. ('''', False)) (ex_ce 0x03) (initNodeState (ex_def ''web'' 2)) [])))
     = Some (OSError ''exit status 1'')
   \<and> ns_Instances (fst (the (nodeTask ex_env_noimage (\<lambda>i. ex_env '''' ''true'')
                    (\<lambda>n. ('''', False))
                    (\<lambda>i n. ('''', False)) (ex_ce 0x03) (initNodeState (ex_def ''web'' 2)) [])))
     = ns_Instances (initNodeState (ex_def ''web'' 2))
   \<and> ns_Error (fst (the (nodeTask (ex_env '''' ''true'')
                    (\<lambda>i. ex_env '''' (if i = 0 then ''false'' else ''true''))
                    (\<lambda>n. ('''', False)) (\<lambda>i n. ('''', False)) (ex_ce 0x03)
                    (initNodeState (ex_def ''web'' 2)) [])))
     = None
   \<and> map is_Error (ns_Instances (fst (the (nodeTask (ex_env '''' ''true'')
                    (\<lambda>i. ex_env '''' (if i = 0 then ''false'' else ''true''))
                    (\<lambda>n. ('''', False)) (\<lambda>i n. ('''', False)) (ex_ce 0x03)
                    (initNodeState (ex_def ''web'' 2)) []))))
     = [Some errorStartTimeout, None]
   \<and> NodeState_AnyError (fst (the (nodeTask (ex_env '''' ''true'')
                    (\<lambda>i. ex_env '''' (if i = 0 then ''false'' else ''true''))
                    (\<lambda>n. ('''', False)) (\<lambda>i n. ('''', False)) (ex_ce 0x03)
                    (initNodeState (ex_def ''web'' 2)) [])))"
proof -
  define ns0 where "ns0 = initNodeState (ex_def ''web'' 2)"
  define R1 where "R1 = nodeTask ex_env_noimage (\<lambda>i. ex_env '''' ''true'') (\<lambda>n. ('''', False))
                    (\<lambda>i n. ('''', False)) (ex_ce 0x03) ns0 []"
  define R2 where "R2 = nodeTask (ex_env '''' ''true'')
                    (\<lambda>i. ex_env '''' (if i = 0 then ''false'' else ''true''))
                    (\<lambda>n. ('''', False)) (\<lambda>i n. ('''', False)) (ex_ce 0x03) ns0 []"
  have flags: "\<not> hasFlag (ce_RunFlags (ex_ce 0x03)) Run"
    "\<not> hasFlag (ce_RunFlags (ex_ce 0x03)) Detach" "\<not> hasFlag (ce_RunFlags (ex_ce 0x03)) Stop"
    by (simp_all add: hasFlag_def ex_ce_def Run_def Detach_def Stop_def)
  have len: "length (ns_Instances ns0) = 2"
    by (simp add: ns0_def initNodeState_def ex_def_def)
  have img: "node_Image (ns_Node ns0) = ''img''"
    by (simp add: ns0_def initNodeState_def ex_def_def)
  have dir1: "errOf (ex_env_noimage [] (MkdirAll (cs_stateDir (ex_ce 0x03)))) = None
      \<or> errOf (ex_env_noimage [] (MkdirAll (cs_stateDir (ex_ce 0x03)))) = Some Exist"
    by (simp add: ex_env_noimage_def ex_env_def)
  have load1: "ex_env_noimage ([] @ [MkdirAll (cs_stateDir (ex_ce 0x03)), Notify])
      (LoadImage (node_Image (ns_Node ns0))) = Inl (OSError ''exit status 1'')"
    by (simp add: ex_env_noimage_def img)
  have dir2: "errOf (ex_env '''' ''true'' [] (MkdirAll (cs_stateDir (ex_ce 0x03)))) = None
      \<or> errOf (ex_env '''' ''true'' [] (MkdirAll (cs_stateDir (ex_ce 0x03)))) = Some Exist"
    by (simp add: ex_env_def)
  have load2: "ex_env '''' ''true'' ([] @ [MkdirAll (cs_stateDir (ex_ce 0x03)), Notify])
      (LoadImage (node_Image (ns_Node ns0))) = Inr ''''"
    by (simp add: ex_env_def)
  have r0: "fst (fst (InstanceState_run (ex_env '''' (if (0::nat) = 0 then ''false'' else ''true''))
        q (ex_ce 0x03) l 0 i0 [])) = Some errorStartTimeout" for q l i0
    using ex_run_times_out [OF flags(1,2)] by simp
  from node_failure_policy [where env = ex_env_noimage and tr = "[]" and ce = "ex_ce 0x03"
      and ns = ns0 and ienv = "\<lambda>i. ex_env [] ''true''"
      and q = "\<lambda>n. ([], False)" and iq = "\<lambda>i n. ([], False)",
      OF dir1, THEN conjunct1, rule_format, OF load1, folded R1_def]
  have 1: "ns_Error (fst (the R1)) = Some (OSError ''exit status 1'')"
    "ns_Instances (fst (the R1)) = ns_Instances ns0"
    by auto
  from node_failure_policy [where env = "ex_env [] ''true''" and tr = "[]"
      and ce = "ex_ce 0x03" and ns = ns0
      and ienv = "\<lambda>i. ex_env [] (if i = 0 then ''false'' else ''true'')"
      and q = "\<lambda>n. ([], False)" and iq = "\<lambda>i n. ([], False)",
      OF dir2, THEN conjunct2, rule_format, OF load2, folded R2_def]
  obtain ns2 where R2: "fst (the R2) = ns2"
    and 2: "ns_Error ns2 = None" and l2: "length (ns_Instances ns2) = 2"
    and each: "\<forall>i < 2. is_Error (ns_Instances ns2 ! i) =
      fst (fst (InstanceState_run (ex_env '''' (if i = 0 then ''false'' else ''true''))
                 (\<lambda>n. ('''', False)) (ex_ce 0x03)
                 (nodeArgs (\<lambda>n. ('''', False)) (ex_ce 0x03)
                    (nodeSetup (\<lambda>n. ('''', False)) (ex_ce 0x03) ns0))
                 i (ns_Instances ns0 ! i) []))
      \<and> is_Stopped (ns_Instances ns2 ! i)"
    unfolding len by auto
  from each [rule_format, of 0] r0
  have e0: "is_Error (ns_Instances ns2 ! 0) = Some errorStartTimeout"
    by simp
  have lt: "(1::nat) < 2" by simp
  have "is_Error (ns_Instances ns2 ! 1) =
      fst (fst (InstanceState_run (ex_env [] (if (1::nat) = 0 then ''false'' else ''true''))
                 (\<lambda>n. ([], False)) (ex_ce 0x03)
                 (nodeArgs (\<lambda>n. ([], False)) (ex_ce 0x03)
                    (nodeSetup (\<lambda>n. ([], False)) (ex_ce 0x03) ns0))
                 1 (ns_Instances ns0 ! 1) []))"
    using each [rule_format, OF lt] by (rule conjunct1)
  also have "\<dots> = None"
    using ex_run_succeeds [OF flags] by simp
  finally have e1: "is_Error (ns_Instances ns2 ! 1) = None" .
  have two: "xs = [xs ! 0, xs ! 1]" if "length xs = 2" for xs :: "'a list"
    using that by (cases xs; cases "tl xs") auto
  have 3: "map is_Error (ns_Instances ns2) = [Some errorStartTimeout, None]"
    using e0 e1 by (subst two [OF l2]) simp
  have 4: "NodeState_AnyError ns2"
    unfolding NodeState_AnyError_def instancesAnyError_iff
    using e0 l2 by (metis nth_mem option.distinct(1) zero_less_numeral)
  from 1 2 3 4 R2 show ?thesis
    unfolding R1_def R2_def ns0_def by simp
qed

subsection \<open>Volume arguments of a node\<close>

text \<open>
  The arguments made from the properties of a node: two for each declared volume,
  after those of the privileged flag, the entrypoint and the environment entries.
\<close>

lemma concat_pairs_length:
  "length (concat (map (\<lambda>x. [g x, h x]) xs)) = 2 * length xs"
  by (induction xs) simp_all

lemma concat_pairs_nth:
  "i < length xs \<Longrightarrow>
     concat (map (\<lambda>x. [g x, h x]) xs) ! (2 * i) = g (xs ! i) \<and>
     concat (map (\<lambda>x. [g x, h x]) xs) ! (2 * i + 1) = h (xs ! i)"
proof (induction xs arbitrary: i)
  case Nil
  then show ?case by simp
next
  case (Cons x xs)
  show ?case
  proof (cases i)
    case 0
    then show ?thesis by simp
  next
    case (Suc j)
    with Cons.prems have "j < length xs" by simp
    from Cons.IH [OF this] Suc show ?thesis by simp
  qed
qed

lemma propertyArgs_length:
  "length (propertyArgs q ce dp) =
     (if dp_Privileged dp then 1 else 0) + (if dp_Entrypoint dp \<noteq> '''' then 2 else 0)
     + 2 * length (dp_Env dp) + 2 * length (dp_Volumes dp)"
  by (simp add: propertyArgs_def concat_pairs_length)

lemma propertyArgs_volume:
  assumes "i < length (dp_Volumes dp)"
  defines "k \<equiv> (if dp_Privileged dp then 1 else 0) + (if dp_Entrypoint dp \<noteq> '''' then 2 else 0)
     + 2 * length (dp_Env dp)"
  shows "propertyArgs q ce dp ! (k + 2 * i) = ''-v''"
    and "propertyArgs q ce dp ! (k + 2 * i + 1) =
           volumeMap (ce_DataDir ce) (Substitute q (dp_Volumes dp ! i))"
proof -
  define pre where "pre = (if dp_Privileged dp then [''--privileged''] else [])
     @ (if dp_Entrypoint dp \<noteq> '''' then [''--entrypoint'', Substitute q (dp_Entrypoint dp)]
        else [])
     @ concat (map (\<lambda>e. [''-e'', Substitute q e]) (dp_Env dp))"
  define vs where "vs = concat (map (\<lambda>vol. [''-v'', volumeMap (ce_DataDir ce) (Substitute q vol)])
                 (dp_Volumes dp))"
  have p: "propertyArgs q ce dp = pre @ vs"
    by (simp add: propertyArgs_def pre_def vs_def)
  have lp: "length pre = k"
    by (simp add: pre_def k_def concat_pairs_length)
  from concat_pairs_nth [OF assms(1), of "\<lambda>vol. ''-v''"
      "\<lambda>vol. volumeMap (ce_DataDir ce) (Substitute q vol)"]
  have v: "vs ! (2 * i) = ''-v''"
    "vs ! (2 * i + 1) = volumeMap (ce_DataDir ce) (Substitute q (dp_Volumes dp ! i))"
    unfolding vs_def by blast+
  show "propertyArgs q ce dp ! (k + 2 * i) = ''-v''"
    unfolding p using v(1) lp by (simp add: nth_append)
  show "propertyArgs q ce dp ! (k + 2 * i + 1) =
           volumeMap (ce_DataDir ce) (Substitute q (dp_Volumes dp ! i))"
    unfolding p using v(2) lp by (simp add: nth_append)
qed

text \<open>
  The arguments of a node whose image load has succeeded, as \<open>run\<close> leaves them in
  \<open>ns.DockerArgs\<close>.
\<close>

lemma NodeState_run_DockerArgs:
  assumes "errOf (env tr (MkdirAll (cs_stateDir ce))) = None
         \<or> errOf (env tr (MkdirAll (cs_stateDir ce))) = Some Exist"
    and "env (tr @ [MkdirAll (cs_stateDir ce), Notify]) (LoadImage (node_Image (ns_Node ns)))
           = Inr x"
  shows "ns_DockerArgs (snd (fst (NodeState_run env ienv q iq ce ns tr))) =
           [''-v'', ce_DataDir ce @ '':'' @ workspace, ''-w'', workspace]
           @ propertyArgs q ce (node_Docker (ns_Node ns))
           @ [Substitute q (node_Image (ns_Node ns))] @ dp_Cmd (node_Docker (ns_Node ns))"
  using assms
  by (auto simp: NodeState_run_def Let_def NodeState_prepareNode_def nodeArgs_def
      nodeSetup_def)

text \<open>
  C9. The state directory exists or can be made and the image load succeeds, so that
  \<open>run\<close> reaches the loop over the declared volumes. Let the declared volume number
  \<open>i\<close> be \<open>src:dst\<close> after substitution (\<open>src\<close> the non-empty text before the first
  colon). Then \<open>ns.DockerArgs\<close>, as \<open>run\<close> leaves it, holds at the two places of this
  volume (after the four first arguments and those of the privileged flag, the
  entrypoint and the environment entries, two places for each volume) the flag \<open>-v\<close>
  and the mapping: the cleaned join of the data directory and \<open>src\<close> when \<open>src\<close> is
  not absolute, \<open>src\<close> itself when it is, then the colon and \<open>dst\<close> unchanged.
\<close>

theorem volume_sources_rewritten:
  fixes env :: env and ienv :: "nat \<Rightarrow> env" and q :: "string \<Rightarrow> string \<times> bool"
    and iq :: "nat \<Rightarrow> string \<Rightarrow> string \<times> bool" and ce :: CloudEnv and ns :: NodeState
    and tr :: trace
  defines "dp \<equiv> node_Docker (ns_Node ns)"
  defines "base \<equiv> 4 + (if dp_Privileged dp then 1 else 0)
                    + (if dp_Entrypoint dp \<noteq> '''' then 2 else 0) + 2 * length (dp_Env dp)"
  defines "args \<equiv> ns_DockerArgs (snd (fst (NodeState_run env ienv q iq ce ns tr)))"
  assumes dir: "errOf (env tr (MkdirAll (cs_stateDir ce))) = None
              \<or> errOf (env tr (MkdirAll (cs_stateDir ce))) = Some Exist"
    and load: "env (tr @ [MkdirAll (cs_stateDir ce), Notify])
                 (LoadImage (node_Image (ns_Node ns))) = Inr x"
    and i: "i < length (dp_Volumes dp)"
    and vol: "Substitute q (dp_Volumes dp ! i) = src @ '':'' @ dst"
    and src: "src \<noteq> []" "CHR '':'' \<notin> set src"
  shows "length args = base + 2 * length (dp_Volumes dp) + 1 + length (dp_Cmd dp)
       \<and> args ! (base + 2 * i) = ''-v''
       \<and> args ! (base + 2 * i + 1) =
           (if path_IsAbs src then src else path_Clean (path_Join [ce_DataDir ce, src]))
           @ '':'' @ dst"
proof -
  define k where "k = (if dp_Privileged dp then 1 else 0)
      + (if dp_Entrypoint dp \<noteq> '''' then 2 else 0) + 2 * length (dp_Env dp)"
  define P where "P = propertyArgs q ce dp"
  have base: "base = 4 + k" by (simp add: base_def k_def)
  have args: "args = [''-v'', ce_DataDir ce @ '':'' @ workspace, ''-w'', workspace]
      @ P @ [Substitute q (node_Image (ns_Node ns))] @ dp_Cmd dp"
    unfolding args_def P_def dp_def by (rule NodeState_run_DockerArgs [OF dir load])
  have lP: "length P = k + 2 * length (dp_Volumes dp)"
    unfolding P_def k_def by (simp add: propertyArgs_length)
  have v: "P ! (k + 2 * i) = ''-v''"
    "P ! (k + 2 * i + 1) = volumeMap (ce_DataDir ce) (Substitute q (dp_Volumes dp ! i))"
    unfolding P_def k_def by (rule propertyArgs_volume [OF i])+
  have lt: "k + 2 * i + 1 < length P" using i lP by simp
  have a0: "args ! (4 + (k + 2 * i)) = P ! (k + 2 * i)"
    unfolding args using lt by (simp add: nth_append)
  have a1: "args ! (4 + (k + 2 * i + 1)) = P ! (k + 2 * i + 1)"
    unfolding args using lt by (simp add: nth_append)
  note m = volumeMap_split [OF src, of "ce_DataDir ce" dst]
  have 1: "length args = base + 2 * length (dp_Volumes dp) + 1 + length (dp_Cmd dp)"
    unfolding args base using lP by simp
  have 2: "args ! (base + 2 * i) = ''-v''"
    using a0 v(1) by (simp add: base add.assoc)
  have 3: "args ! (base + 2 * i + 1) =
      (if path_IsAbs src then src else path_Clean (path_Join [ce_DataDir ce, src]))
      @ '':'' @ dst"
    using a1 v(2) vol m by (simp add: base add.assoc)
  from 1 2 3 show ?thesis by blast
qed

theorem volume_sources_rewritten_witness:
  "ns_DockerArgs (snd (fst (NodeState_run (ex_env '''' ''true'') (\<lambda>i. ex_env '''' ''true'')
       ex_vol_q (\<lambda>i. ex_vol_q) ex_vol_ce (initNodeState ex_vol_def) []))) ! 7 = ''-v''
   \<and> ns_DockerArgs (snd (fst (NodeState_run (ex_env '''' ''true'') (\<lambda>i. ex_env '''' ''true'')
       ex_vol_q (\<lambda>i. ex_vol_q) ex_vol_ce (initNodeState ex_vol_def) []))) ! 8 =
       ''/srv/cluster1/data:/app/data''
   \<and> ns_DockerArgs (snd (fst (NodeState_run (ex_env '''' ''true'') (\<lambda>i. ex_env '''' ''true'')
       ex_vol_q (\<lambda>i. ex_vol_q) ex_vol_ce (initNodeState ex_vol_def) []))) ! 9 = ''-v''
   \<and> ns_DockerArgs (snd (fst (NodeState_run (ex_env '''' ''true'') (\<lambda>i. ex_env '''' ''true'')
       ex_vol_q (\<lambda>i. ex_vol_q) ex_vol_ce (initNodeState ex_vol_def) []))) ! 10 =
       ''/abs/path:/app/data''
   \<and> ns_DockerArgs (snd (fst (NodeState_run (ex_env '''' ''true'') (\<lambda>i. ex_env '''' ''true'')
       ex_vol_q (\<lambda>i. ex_vol_q) ex_vol_ce (initNodeState ex_vol_def) []))) ! 12 =
       ''/srv/cluster1/logs:/var/app''
   \<and> length (ns_DockerArgs (snd (fst (NodeState_run (ex_env '''' ''true'')
       (\<lambda>i. ex_env '''' ''true'') ex_vol_q (\<lambda>i. ex_vol_q) ex_vol_ce
       (initNodeState ex_vol_def) [])))) = 15"
proof -
  define ns0 where "ns0 = initNodeState ex_vol_def"
  define args where "args = ns_DockerArgs (snd (fst (NodeState_run (ex_env '''' ''true'')
       (\<lambda>i. ex_env '''' ''true'') ex_vol_q (\<lambda>i. ex_vol_q) ex_vol_ce ns0 [])))"
  have dp: "node_Docker (ns_Node ns0) = node_Docker ex_vol_def"
    by (simp add: ns0_def initNodeState_def)
  have vols: "dp_Volumes (node_Docker (ns_Node ns0)) =
      [''data:/app/data'', ''/abs/path:/app/data'', ''logs:/var/%(name)'']"
    and props: "dp_Privileged (node_Docker (ns_Node ns0))"
      "dp_Entrypoint (node_Docker (ns_Node ns0)) = ''''"
      "dp_Env (node_Docker (ns_Node ns0)) = [''A=1'']"
      "dp_Cmd (node_Docker (ns_Node ns0)) = [''serve'']"
    by (simp_all add: dp ex_vol_def_def)
  have dir: "errOf (ex_env '''' ''true'' [] (MkdirAll (cs_stateDir ex_vol_ce))) = None
      \<or> errOf (ex_env '''' ''true'' [] (MkdirAll (cs_stateDir ex_vol_ce))) = Some Exist"
    by (simp add: ex_env_def)
  have load: "ex_env '''' ''true'' ([] @ [MkdirAll (cs_stateDir ex_vol_ce), Notify])
      (LoadImage (node_Image (ns_Node ns0))) = Inr ''''"
    by (simp add: ex_env_def)
  have s0: "Substitute ex_vol_q (dp_Volumes (node_Docker (ns_Node ns0)) ! 0) =
      ''data'' @ '':'' @ ''/app/data''"
    by (simp add: vols Substitute_def FindAllStringIndex_def slice_def varChar_def)
  have s1: "Substitute ex_vol_q (dp_Volumes (node_Docker (ns_Node ns0)) ! 1) =
      ''/abs/path'' @ '':'' @ ''/app/data''"
    by (simp add: vols Substitute_def FindAllStringIndex_def slice_def varChar_def)
  have s2: "Substitute ex_vol_q (dp_Volumes (node_Docker (ns_Node ns0)) ! 2) =
      ''logs'' @ '':'' @ ''/var/app''"
    by (simp add: vols Substitute_def FindAllStringIndex_def slice_def varChar_def
        ex_vol_q_def)
  have i0: "0 < length (dp_Volumes (node_Docker (ns_Node ns0)))"
    and i1: "1 < length (dp_Volumes (node_Docker (ns_Node ns0)))"
    and i2: "2 < length (dp_Volumes (node_Docker (ns_Node ns0)))"
    by (simp_all add: vols)
  have c0: "path_Clean (path_Join [''/srv/cluster1'', ''data'']) = ''/srv/cluster1/data''"
    and c2: "path_Clean (path_Join [''/srv/cluster1'', ''logs'']) = ''/srv/cluster1/logs''"
    by (simp_all add: path_Join_def path_Clean_def path_IsAbs_def)
  have abs: "\<not> path_IsAbs ''data''" "path_IsAbs ''/abs/path''" "\<not> path_IsAbs ''logs''"
    by (simp_all add: path_IsAbs_def)
  have dd: "ce_DataDir ex_vol_ce = ''/srv/cluster1''" by (simp add: ex_vol_ce_def)
  from volume_sources_rewritten [where env = "ex_env '''' ''true''" and tr = "[]"
      and ce = ex_vol_ce and ns = ns0 and ienv = "\<lambda>i. ex_env '''' ''true''"
      and q = ex_vol_q and iq = "\<lambda>i. ex_vol_q", OF dir load i0 s0, folded args_def]
  have r0: "length args = 15" "args ! 7 = ''-v''" "args ! 8 = ''/srv/cluster1/data:/app/data''"
    by (simp_all add: props vols abs dd c0)
  from volume_sources_rewritten [where env = "ex_env '''' ''true''" and tr = "[]"
      and ce = ex_vol_ce and ns = ns0 and ienv = "\<lambda>i. ex_env '''' ''true''"
      and q = ex_vol_q and iq = "\<lambda>i. ex_vol_q", OF dir load i1 s1, folded args_def]
  have r1: "args ! 9 = ''-v''" "args ! 10 = ''/abs/path:/app/data''"
    by (simp_all add: props vols abs dd)
  from volume_sources_rewritten [where env = "ex_env '''' ''true''" and tr = "[]"
      and ce = ex_vol_ce and ns = ns0 and ienv = "\<lambda>i. ex_env '''' ''true''"
      and q = ex_vol_q and iq = "\<lambda>i. ex_vol_q", OF dir load i2 s2, folded args_def]
  have r2: "args ! 12 = ''/srv/cluster1/logs:/var/app''"
    by (simp_all add: props vols abs dd c2)
  from r0 r1 r2 show ?thesis
    unfolding args_def ns0_def by simp
qed

subsection \<open>Image cache\<close>

lemma wakeAll_simps [simp]:
  "holdsLock (wakeAll pc t) = holdsLock (pc t)"
  "loading (wakeAll pc t) = loading (pc t)"
  "pc_ok pullRes imgs pulls n (wakeAll pc t) = pc_ok pullRes imgs pulls n (pc t)"
  by (auto simp: wakeAll_def holdsLock_def loading_def)

lemma pc_ok_other:
  "m \<noteq> n \<Longrightarrow> pc_ok pullRes (imgs(n \<mapsto> x)) pulls m p = pc_ok pullRes imgs pulls m p"
  "m \<noteq> n \<Longrightarrow> pc_ok pullRes imgs (pulls(n := k)) m p = pc_ok pullRes imgs pulls m p"
  by (cases p; simp)+

lemma load_invD:
  assumes "load_inv calls pullRes s"
  shows "holdsLock (ls_pc s t) \<Longrightarrow> ls_lock s = Some t"
    and "pc_ok pullRes (ls_Images s) (ls_pulls s) (calls t) (ls_pc s t)"
    and "loading (ls_pc s t) \<Longrightarrow> loading (ls_pc s u) \<Longrightarrow> calls t = calls u \<Longrightarrow> t = u"
    and "ls_pulls s n \<le> 1"
    and "ls_Images s n = None \<Longrightarrow> ls_pulls s n = 0"
    and "ls_Images s n = Some ld \<Longrightarrow> il_complete ld \<Longrightarrow> ls_pulls s n = 1 \<and> il_Error ld = pullRes n 0"
  using assms unfolding load_inv_def by blast+

lemma load_invI:
  assumes "\<And>t. holdsLock (ls_pc s t) \<Longrightarrow> ls_lock s = Some t"
    and "\<And>t. pc_ok pullRes (ls_Images s) (ls_pulls s) (calls t) (ls_pc s t)"
    and "\<And>t u. loading (ls_pc s t) \<Longrightarrow> loading (ls_pc s u) \<Longrightarrow> calls t = calls u \<Longrightarrow> t = u"
    and "\<And>n. ls_pulls s n \<le> 1"
    and "\<And>n. ls_Images s n = None \<Longrightarrow> ls_pulls s n = 0"
    and "\<And>n ld. ls_Images s n = Some ld \<Longrightarrow> il_complete ld \<Longrightarrow>
           ls_pulls s n = 1 \<and> il_Error ld = pullRes n 0"
  shows "load_inv calls pullRes s"
  unfolding load_inv_def using assms by blast

text \<open>A step that changes only the place of \<open>t\<close> and, possibly, the lock.\<close>

lemma inv_move:
  assumes inv: "load_inv calls pullRes s"
    and lock: "\<And>u. holdsLock (if u = t then p else ls_pc s u) \<Longrightarrow> l = Some u"
    and ok: "pc_ok pullRes (ls_Images s) (ls_pulls s) (calls t) p"
    and ld: "loading p \<Longrightarrow> loading (ls_pc s t)"
  shows "load_inv calls pullRes (s\<lparr>ls_lock := l, ls_pc := (ls_pc s)(t := p)\<rparr>)"
proof (rule load_invI)
  fix u
  show "holdsLock (ls_pc (s\<lparr>ls_lock := l, ls_pc := (ls_pc s)(t := p)\<rparr>) u) \<Longrightarrow>
      ls_lock (s\<lparr>ls_lock := l, ls_pc := (ls_pc s)(t := p)\<rparr>) = Some u"
    using lock [of u] by (cases "u = t") simp_all
  show "pc_ok pullRes (ls_Images (s\<lparr>ls_lock := l, ls_pc := (ls_pc s)(t := p)\<rparr>))
      (ls_pulls (s\<lparr>ls_lock := l, ls_pc := (ls_pc s)(t := p)\<rparr>)) (calls u)
      (ls_pc (s\<lparr>ls_lock := l, ls_pc := (ls_pc s)(t := p)\<rparr>) u)"
    using ok load_invD(2) [OF inv, of u] by (cases "u = t") simp_all
next
  fix u v
  assume "loading (ls_pc (s\<lparr>ls_lock := l, ls_pc := (ls_pc s)(t := p)\<rparr>) u)"
    "loading (ls_pc (s\<lparr>ls_lock := l, ls_pc := (ls_pc s)(t := p)\<rparr>) v)" "calls u = calls v"
  then have "loading (ls_pc s u)" "loading (ls_pc s v)"
    using ld by (auto split: if_splits)
  with \<open>calls u = calls v\<close> show "u = v" using load_invD(3) [OF inv, of u v] by simp
next
  fix n
  show "ls_pulls (s\<lparr>ls_lock := l, ls_pc := (ls_pc s)(t := p)\<rparr>) n \<le> 1"
    using load_invD(4) [OF inv, of n] by simp
  show "ls_Images (s\<lparr>ls_lock := l, ls_pc := (ls_pc s)(t := p)\<rparr>) n = None \<Longrightarrow>
      ls_pulls (s\<lparr>ls_lock := l, ls_pc := (ls_pc s)(t := p)\<rparr>) n = 0"
    using load_invD(5) [OF inv, of n] by simp
next
  fix n ld
  show "ls_Images (s\<lparr>ls_lock := l, ls_pc := (ls_pc s)(t := p)\<rparr>) n = Some ld \<Longrightarrow>
      il_complete ld \<Longrightarrow>
      ls_pulls (s\<lparr>ls_lock := l, ls_pc := (ls_pc s)(t := p)\<rparr>) n = 1 \<and> il_Error ld = pullRes n 0"
    using load_invD(6) [OF inv, of n ld] by simp
qed

lemma inv_wake:
  assumes inv: "load_inv calls pullRes s"
  shows "load_inv calls pullRes (s\<lparr>ls_pc := wakeAll (ls_pc s)\<rparr>)"
proof (rule load_invI)
  fix t u n ld
  show "holdsLock (ls_pc (s\<lparr>ls_pc := wakeAll (ls_pc s)\<rparr>) t) \<Longrightarrow>
      ls_lock (s\<lparr>ls_pc := wakeAll (ls_pc s)\<rparr>) = Some t"
    using load_invD(1) [OF inv, of t] by simp
  show "pc_ok pullRes (ls_Images (s\<lparr>ls_pc := wakeAll (ls_pc s)\<rparr>))
      (ls_pulls (s\<lparr>ls_pc := wakeAll (ls_pc s)\<rparr>)) (calls t)
      (ls_pc (s\<lparr>ls_pc := wakeAll (ls_pc s)\<rparr>) t)"
    using load_invD(2) [OF inv, of t] by simp
  show "loading (ls_pc (s\<lparr>ls_pc := wakeAll (ls_pc s)\<rparr>) t) \<Longrightarrow>
      loading (ls_pc (s\<lparr>ls_pc := wakeAll (ls_pc s)\<rparr>) u) \<Longrightarrow> calls t = calls u \<Longrightarrow> t = u"
    using load_invD(3) [OF inv, of t u] by simp
  show "ls_pulls (s\<lparr>ls_pc := wakeAll (ls_pc s)\<rparr>) n \<le> 1"
    using load_invD(4) [OF inv, of n] by simp
  show "ls_Images (s\<lparr>ls_pc := wakeAll (ls_pc s)\<rparr>) n = None \<Longrightarrow>
      ls_pulls (s\<lparr>ls_pc := wakeAll (ls_pc s)\<rparr>) n = 0"
    using load_invD(5) [OF inv, of n] by simp
  show "ls_Images (s\<lparr>ls_pc := wakeAll (ls_pc s)\<rparr>) n = Some ld \<Longrightarrow> il_complete ld \<Longrightarrow>
      ls_pulls (s\<lparr>ls_pc := wakeAll (ls_pc s)\<rparr>) n = 1 \<and> il_Error ld = pullRes n 0"
    using load_invD(6) [OF inv, of n ld] by simp
qed

text \<open>The three steps that change the entry of the thread's image.\<close>

lemma inv_Insert:
  assumes inv: "load_inv calls pullRes s" and pc: "ls_pc s t = LI_Insert"
  defines "s1 \<equiv> s\<lparr>ls_Images := (ls_Images s)(calls t \<mapsto> \<lparr>il_complete = False, il_Error = None\<rparr>),
                   ls_pc := (ls_pc s)(t := LI_UnlockL)\<rparr>"
  shows "load_inv calls pullRes s1"
proof (rule load_invI)
  have none: "ls_Images s (calls t) = None"
    using load_invD(2) [OF inv, of t] pc by simp
  have p0: "ls_pulls s (calls t) = 0"
    using load_invD(5) [OF inv none] .
  have lk: "ls_lock s = Some t"
    using load_invD(1) [OF inv, of t] pc by (simp add: holdsLock_def)
  have other: "ls_pc s u = LI_Call \<or> ls_pc s u = LI_Lookup" if "u \<noteq> t" "calls u = calls t" for u
  proof -
    have "\<not> holdsLock (ls_pc s u)" using load_invD(1) [OF inv, of u] lk that by auto
    then show ?thesis
      using load_invD(2) [OF inv, of u] none that(2)
      by (cases "ls_pc s u") (simp_all add: holdsLock_def)
  qed
  fix u
  show "holdsLock (ls_pc s1 u) \<Longrightarrow> ls_lock s1 = Some u"
    using load_invD(1) [OF inv, of u] lk by (cases "u = t") (simp_all add: s1_def)
  show "pc_ok pullRes (ls_Images s1) (ls_pulls s1) (calls u) (ls_pc s1 u)"
  proof (cases "u = t")
    case True
    then show ?thesis using p0 by (simp add: s1_def)
  next
    case False
    show ?thesis
    proof (cases "calls u = calls t")
      case True
      with other [OF False] False show ?thesis by (auto simp: s1_def)
    next
      case ne: False
      with False load_invD(2) [OF inv, of u] show ?thesis by (simp add: s1_def pc_ok_other)
    qed
  qed
next
  have none: "ls_Images s (calls t) = None"
    using load_invD(2) [OF inv, of t] pc by simp
  have nl: "\<not> loading (ls_pc s u)" if "calls u = calls t" for u
    using load_invD(2) [OF inv, of u] none that
    by (cases "ls_pc s u") (simp_all add: loading_def)
  fix u v
  assume a: "loading (ls_pc s1 u)" "loading (ls_pc s1 v)" "calls u = calls v"
  show "u = v"
  proof (cases "u = t \<or> v = t")
    case True
    with a nl [of u] nl [of v] show ?thesis by (auto simp: s1_def split: if_splits)
  next
    case False
    with a load_invD(3) [OF inv, of u v] show ?thesis by (simp add: s1_def)
  qed
next
  fix n
  show "ls_pulls s1 n \<le> 1" using load_invD(4) [OF inv, of n] by (simp add: s1_def)
  show "ls_Images s1 n = None \<Longrightarrow> ls_pulls s1 n = 0"
    using load_invD(5) [OF inv, of n] by (cases "n = calls t") (simp_all add: s1_def)
next
  fix n ld
  show "ls_Images s1 n = Some ld \<Longrightarrow> il_complete ld \<Longrightarrow>
      ls_pulls s1 n = 1 \<and> il_Error ld = pullRes n 0"
    using load_invD(6) [OF inv, of n ld] by (cases "n = calls t") (auto simp: s1_def)
qed

text \<open>While the entry of an image is not complete, the other callers of the image
  are before the loop or in it.\<close>

lemma incomplete_others:
  assumes inv: "load_inv calls pullRes s" and ld: "loading (ls_pc s t)"
    and img: "ls_Images s (calls t) = Some ld0" "\<not> il_complete ld0"
    and u: "u \<noteq> t" "calls u = calls t"
  shows "ls_pc s u \<in> {LI_Call, LI_Lookup, LI_Check, LI_Wait, LI_Sleeping, LI_Woken}"
proof -
  have "\<not> loading (ls_pc s u)" using load_invD(3) [OF inv, of u t] ld u by auto
  then show ?thesis
    using load_invD(2) [OF inv, of u] img u(2)
    by (cases "ls_pc s u") (simp_all add: loading_def)
qed

lemma inv_Load:
  assumes inv: "load_inv calls pullRes s" and pc: "ls_pc s t = LI_Load"
    and img: "ls_Images s (calls t) = Some ld0"
  defines "s1 \<equiv> s\<lparr>ls_Images := (ls_Images s)
                        (calls t \<mapsto> ld0\<lparr>il_Error := pullRes (calls t) (ls_pulls s (calls t))\<rparr>),
                   ls_pulls := (ls_pulls s)(calls t := ls_pulls s (calls t) + 1),
                   ls_pc := (ls_pc s)(t := LI_Store)\<rparr>"
  shows "load_inv calls pullRes s1"
proof (rule load_invI)
  have ok: "\<not> il_complete ld0" "ls_pulls s (calls t) = 0"
    using load_invD(2) [OF inv, of t] pc img by simp_all
  have ldg: "loading (ls_pc s t)" using pc by (simp add: loading_def)
  fix u
  show "holdsLock (ls_pc s1 u) \<Longrightarrow> ls_lock s1 = Some u"
    using load_invD(1) [OF inv, of u] by (cases "u = t") (simp_all add: s1_def holdsLock_def)
  show "pc_ok pullRes (ls_Images s1) (ls_pulls s1) (calls u) (ls_pc s1 u)"
  proof (cases "u = t")
    case True
    then show ?thesis using ok by (simp add: s1_def)
  next
    case False
    show ?thesis
    proof (cases "calls u = calls t")
      case True
      from incomplete_others [OF inv ldg img ok(1) False True] False True
      show ?thesis by (auto simp: s1_def)
    next
      case ne: False
      with False load_invD(2) [OF inv, of u] show ?thesis by (simp add: s1_def pc_ok_other)
    qed
  qed
next
  fix u v
  assume a: "loading (ls_pc s1 u)" "loading (ls_pc s1 v)" "calls u = calls v"
  have "loading (ls_pc s u)" "loading (ls_pc s v)"
    using a pc by (auto simp: s1_def loading_def split: if_splits)
  with a(3) show "u = v" using load_invD(3) [OF inv, of u v] by simp
next
  have ok: "\<not> il_complete ld0" "ls_pulls s (calls t) = 0"
    using load_invD(2) [OF inv, of t] pc img by simp_all
  fix n
  show "ls_pulls s1 n \<le> 1"
    using load_invD(4) [OF inv, of n] ok by (cases "n = calls t") (simp_all add: s1_def)
  show "ls_Images s1 n = None \<Longrightarrow> ls_pulls s1 n = 0"
    using load_invD(5) [OF inv, of n] by (cases "n = calls t") (simp_all add: s1_def)
next
  have ok: "\<not> il_complete ld0"
    using load_invD(2) [OF inv, of t] pc img by simp
  fix n ld
  show "ls_Images s1 n = Some ld \<Longrightarrow> il_complete ld \<Longrightarrow>
      ls_pulls s1 n = 1 \<and> il_Error ld = pullRes n 0"
    using load_invD(6) [OF inv, of n ld] ok by (cases "n = calls t") (auto simp: s1_def)
qed

lemma inv_Store:
  assumes inv: "load_inv calls pullRes s" and pc: "ls_pc s t = LI_Store"
    and img: "ls_Images s (calls t) = Some ld0"
  defines "s1 \<equiv> s\<lparr>ls_Images := (ls_Images s)(calls t \<mapsto> ld0\<lparr>il_complete := True\<rparr>),
                   ls_pc := (ls_pc s)(t := LI_Notify)\<rparr>"
  shows "load_inv calls pullRes s1"
proof (rule load_invI)
  have ok: "\<not> il_complete ld0" "ls_pulls s (calls t) = 1" "il_Error ld0 = pullRes (calls t) 0"
    using load_invD(2) [OF inv, of t] pc img by simp_all
  have ldg: "loading (ls_pc s t)" using pc by (simp add: loading_def)
  fix u
  show "holdsLock (ls_pc s1 u) \<Longrightarrow> ls_lock s1 = Some u"
    using load_invD(1) [OF inv, of u] by (cases "u = t") (simp_all add: s1_def holdsLock_def)
  show "pc_ok pullRes (ls_Images s1) (ls_pulls s1) (calls u) (ls_pc s1 u)"
  proof (cases "u = t")
    case True
    then show ?thesis by (simp add: s1_def)
  next
    case False
    show ?thesis
    proof (cases "calls u = calls t")
      case True
      from incomplete_others [OF inv ldg img ok(1) False True] False True
      show ?thesis by (auto simp: s1_def)
    next
      case ne: False
      with False load_invD(2) [OF inv, of u] show ?thesis by (simp add: s1_def pc_ok_other)
    qed
  qed
next
  fix u v
  assume a: "loading (ls_pc s1 u)" "loading (ls_pc s1 v)" "calls u = calls v"
  have "loading (ls_pc s u)" "loading (ls_pc s v)"
    using a pc by (auto simp: s1_def loading_def split: if_splits)
  with a(3) show "u = v" using load_invD(3) [OF inv, of u v] by simp
next
  fix n
  show "ls_pulls s1 n \<le> 1" using load_invD(4) [OF inv, of n] by (simp add: s1_def)
  show "ls_Images s1 n = None \<Longrightarrow> ls_pulls s1 n = 0"
    using load_invD(5) [OF inv, of n] by (cases "n = calls t") (simp_all add: s1_def)
next
  have ok: "ls_pulls s (calls t) = 1" "il_Error ld0 = pullRes (calls t) 0"
    using load_invD(2) [OF inv, of t] pc img by simp_all
  fix n ld
  show "ls_Images s1 n = Some ld \<Longrightarrow> il_complete ld \<Longrightarrow>
      ls_pulls s1 n = 1 \<and> il_Error ld = pullRes n 0"
    using load_invD(6) [OF inv, of n ld] ok by (cases "n = calls t") (auto simp: s1_def)
qed

lemma load_inv_init: "load_inv calls pullRes load_init"
  by (rule load_invI) (simp_all add: load_init_def holdsLock_def loading_def)

lemma load_step_inv:
  assumes inv: "load_inv calls pullRes s" and step: "load_step calls pullRes s t = Some s1"
  shows "load_inv calls pullRes s1"
proof -
  note D = load_invD [OF inv]
  have keep: "load_inv calls pullRes (s\<lparr>ls_pc := (ls_pc s)(t := p)\<rparr>)"
    if "holdsLock (ls_pc s t)" "\<not> loading p"
      "pc_ok pullRes (ls_Images s) (ls_pulls s) (calls t) p" for p
  proof -
    have "load_inv calls pullRes (s\<lparr>ls_lock := ls_lock s, ls_pc := (ls_pc s)(t := p)\<rparr>)"
    proof (rule inv_move [OF inv])
      fix u assume "holdsLock (if u = t then p else ls_pc s u)"
      then show "ls_lock s = Some u" using D(1) [of u] D(1) [of t] that(1) by (cases "u = t") simp_all
    qed (use that in simp_all)
    then show ?thesis by simp
  qed
  have free: "load_inv calls pullRes (s\<lparr>ls_pc := (ls_pc s)(t := p)\<rparr>)"
    if "\<not> holdsLock p" "\<not> loading p"
      "pc_ok pullRes (ls_Images s) (ls_pulls s) (calls t) p" for p
  proof -
    have "load_inv calls pullRes (s\<lparr>ls_lock := ls_lock s, ls_pc := (ls_pc s)(t := p)\<rparr>)"
    proof (rule inv_move [OF inv])
      fix u assume "holdsLock (if u = t then p else ls_pc s u)"
      then show "ls_lock s = Some u" using D(1) [of u] that(1) by (cases "u = t") simp_all
    qed (use that in simp_all)
    then show ?thesis by simp
  qed
  have acquire: "load_inv calls pullRes (s\<lparr>ls_lock := Some t, ls_pc := (ls_pc s)(t := p)\<rparr>)"
    if "ls_lock s = None" "\<not> loading p"
      "pc_ok pullRes (ls_Images s) (ls_pulls s) (calls t) p" for p
  proof (rule inv_move [OF inv])
    fix u assume "holdsLock (if u = t then p else ls_pc s u)"
    then show "Some t = Some u" using D(1) [of u] that(1) by (cases "u = t") simp_all
  qed (use that in simp_all)
  have release: "load_inv calls pullRes (s\<lparr>ls_lock := None, ls_pc := (ls_pc s)(t := p)\<rparr>)"
    if "holdsLock (ls_pc s t)" "\<not> holdsLock p" "loading p \<Longrightarrow> loading (ls_pc s t)"
      "pc_ok pullRes (ls_Images s) (ls_pulls s) (calls t) p" for p
  proof (rule inv_move [OF inv])
    fix u assume "holdsLock (if u = t then p else ls_pc s u)"
    then show "None = Some u" using D(1) [of u] D(1) [of t] that(1,2) by (cases "u = t") simp_all
  qed (use that in simp_all)
  show ?thesis
  proof (cases "ls_pc s t")
    case LI_Call
    with step acquire [of LI_Lookup] show ?thesis
      by (auto simp: load_step_def Let_def loading_def split: if_splits)
  next
    case LI_Lookup
    with step keep [of LI_Check] keep [of LI_Insert] show ?thesis
      by (auto simp: load_step_def Let_def loading_def holdsLock_def split: option.splits)
  next
    case LI_Check
    with step keep [of LI_Unlock] keep [of LI_Wait] D(2) [of t] show ?thesis
      by (auto simp: load_step_def Let_def loading_def holdsLock_def split: option.splits if_splits)
  next
    case LI_Wait
    with step release [of LI_Sleeping] D(2) [of t] show ?thesis
      by (auto simp: load_step_def Let_def loading_def holdsLock_def)
  next
    case LI_Sleeping
    with step show ?thesis by (simp add: load_step_def Let_def)
  next
    case LI_Woken
    with step acquire [of LI_Check] D(2) [of t] show ?thesis
      by (auto simp: load_step_def Let_def loading_def split: if_splits)
  next
    case LI_Unlock
    with step release [of LI_Return] D(2) [of t] show ?thesis
      by (auto simp: load_step_def Let_def loading_def holdsLock_def)
  next
    case LI_Insert
    with step inv_Insert [OF inv LI_Insert] show ?thesis
      by (simp add: load_step_def Let_def)
  next
    case LI_UnlockL
    with step release [of LI_Load] D(2) [of t] show ?thesis
      by (auto simp: load_step_def Let_def loading_def holdsLock_def)
  next
    case LI_Load
    with step inv_Load [OF inv LI_Load] show ?thesis
      by (auto simp: load_step_def Let_def split: option.splits)
  next
    case LI_Store
    with step inv_Store [OF inv LI_Store] show ?thesis
      by (auto simp: load_step_def Let_def split: option.splits)
  next
    case LI_Notify
    have w: "load_inv calls pullRes (s\<lparr>ls_pc := wakeAll (ls_pc s)\<rparr>)"
      by (rule inv_wake [OF inv])
    have pcw: "wakeAll (ls_pc s) t = LI_Notify" using LI_Notify by (simp add: wakeAll_def)
    have "load_inv calls pullRes
        (s\<lparr>ls_pc := wakeAll (ls_pc s)\<rparr>
          \<lparr>ls_lock := ls_lock (s\<lparr>ls_pc := wakeAll (ls_pc s)\<rparr>),
           ls_pc := (ls_pc (s\<lparr>ls_pc := wakeAll (ls_pc s)\<rparr>))(t := LI_Return)\<rparr>)"
    proof (rule inv_move [OF w])
      fix u
      assume "holdsLock (if u = t then LI_Return else ls_pc (s\<lparr>ls_pc := wakeAll (ls_pc s)\<rparr>) u)"
      moreover have "\<not> holdsLock LI_Return" by (simp add: holdsLock_def)
      ultimately show "ls_lock (s\<lparr>ls_pc := wakeAll (ls_pc s)\<rparr>) = Some u"
        using D(1) [of u] by (cases "u = t") simp_all
    next
      show "pc_ok pullRes (ls_Images (s\<lparr>ls_pc := wakeAll (ls_pc s)\<rparr>))
          (ls_pulls (s\<lparr>ls_pc := wakeAll (ls_pc s)\<rparr>)) (calls t) LI_Return"
        using D(2) [of t] LI_Notify by simp
    qed (simp add: loading_def)
    with step LI_Notify show ?thesis by (simp add: load_step_def Let_def)
  next
    case LI_Return
    with step free [of "LI_Done e" for e] D(2) [of t] show ?thesis
      by (auto simp: load_step_def Let_def loading_def holdsLock_def split: option.splits)
  next
    case (LI_Done e)
    with step show ?thesis by (simp add: load_step_def Let_def)
  qed
qed

lemma load_event_inv:
  "load_inv calls pullRes s \<Longrightarrow> load_event calls pullRes s ev = Some s1 \<Longrightarrow>
     load_inv calls pullRes s1"
  by (cases ev) (auto simp: load_event_def intro: load_step_inv inv_wake)

lemma load_run_inv:
  "load_inv calls pullRes s \<Longrightarrow> load_run calls pullRes s sched = Some s1 \<Longrightarrow>
     load_inv calls pullRes s1"
proof (induction sched arbitrary: s)
  case Nil
  then show ?case by simp
next
  case (Cons ev evs)
  then show ?case
    by (auto split: option.splits dest: load_event_inv)
qed

text \<open>
  Safety. In every state that a schedule of callers (and of broadcasts by other
  tasks) reaches from the initial state, the pull of an image name has been invoked
  at most once; and when a caller of \<open>LoadImage(name)\<close> has returned, the pull of
  \<open>name\<close> has been invoked exactly once, the caller has returned the answer to that
  pull, this answer is the \<open>Error\<close> of the completed entry of \<open>name\<close>, and every
  other caller of the same name that has returned has returned the same.
\<close>

lemma LoadImage_at_most_once:
  assumes "load_run calls pullRes load_init sched = Some s"
  shows "ls_pulls s name \<le> 1
       \<and> (\<forall>t e. ls_pc s t = LI_Done e \<longrightarrow>
             ls_pulls s (calls t) = 1 \<and> e = pullRes (calls t) 0 \<and>
             (\<exists>ld. ls_Images s (calls t) = Some ld \<and> il_complete ld \<and> il_Error ld = e) \<and>
             (\<forall>u e'. ls_pc s u = LI_Done e' \<and> calls u = calls t \<longrightarrow> e' = e))"
proof -
  have inv: "load_inv calls pullRes s"
    using load_run_inv [OF load_inv_init assms] .
  note D = load_invD [OF inv]
  have ret: "ls_pulls s (calls t) = 1 \<and> e = pullRes (calls t) 0 \<and>
      (\<exists>ld. ls_Images s (calls t) = Some ld \<and> il_complete ld \<and> il_Error ld = e)"
    if "ls_pc s t = LI_Done e" for t e
  proof -
    from D(2) [of t] that obtain ld where
      ld: "ls_Images s (calls t) = Some ld" "il_complete ld" "il_Error ld = e"
      by auto
    from D(6) [OF ld(1,2)] ld show ?thesis by auto
  qed
  show ?thesis
  proof (intro conjI allI impI)
    show "ls_pulls s name \<le> 1" by (rule D(4))
  next
    fix t e assume t: "ls_pc s t = LI_Done e"
    from ret [OF t] show "ls_pulls s (calls t) = 1" "e = pullRes (calls t) 0"
      "\<exists>ld. ls_Images s (calls t) = Some ld \<and> il_complete ld \<and> il_Error ld = e"
      by blast+
  next
    fix t e u e'
    assume t: "ls_pc s t = LI_Done e" and "ls_pc s u = LI_Done e' \<and> calls u = calls t"
    with ret [of u e'] ret [OF t] show "e' = e" by simp
  qed
qed

text \<open>
  Under \<open>ex_load_sched\<close> thread 1 is asleep when thread 0 broadcasts, and both return
  the error of the one pull.
\<close>

lemma LoadImage_shared_result_example:
  "ls_pulls (the (load_run (\<lambda>t. ''img'') ex_pullRes load_init ex_load_sched)) ''img'' = 1
   \<and> ls_pc (the (load_run (\<lambda>t. ''img'') ex_pullRes load_init ex_load_sched)) 0 =
       LI_Done (Some (OSError ''exit status 1''))
   \<and> ls_pc (the (load_run (\<lambda>t. ''img'') ex_pullRes load_init ex_load_sched)) 1 =
       LI_Done (Some (OSError ''exit status 1''))"
proof -
  have "\<exists>s. load_run (\<lambda>t. ''img'') ex_pullRes load_init ex_load_sched = Some s
      \<and> (\<exists>e. ls_pc s 0 = LI_Done e) \<and> (\<exists>e. ls_pc s 1 = LI_Done e)"
    by (simp add: ex_load_sched_def load_event_def load_step_def Let_def load_init_def
        wakeAll_def)
  then obtain s e0 e1 where
    run: "load_run (\<lambda>t. ''img'') ex_pullRes load_init ex_load_sched = Some s"
    and pc: "ls_pc s 0 = LI_Done e0" "ls_pc s 1 = LI_Done e1"
    by blast
  from LoadImage_at_most_once [OF run, of "''img''"] pc
  have "ls_pulls s ''img'' = 1" "e0 = ex_pullRes ''img'' 0" "e1 = ex_pullRes ''img'' 0"
    by blast+
  with run pc show ?thesis by (simp add: ex_pullRes_def)
qed

text \<open>
  C1. The claim is that the pull is invoked exactly once and that every caller
  returns the shared result. That the pull is invoked at most once, and that the
  callers that return share its result, is proved above; but a caller need not
  return. Under the schedule
  \<open>ex_lost_sched\<close> thread 1 has tested \<open>complete\<close> (it is 0) when thread 0 stores
  \<open>complete\<close> and broadcasts, neither under the lock, and it calls \<open>cs.Wait()\<close> after
  the broadcasts. In the state reached the image has been pulled once, thread 0 has
  returned the error of the pull, the lock is free, and thread 1 sleeps on the
  condition variable: neither caller has a step, and thread 1 has not returned.
\<close>

theorem LoadImage_lost_wakeup:
  "\<exists>s. load_run (\<lambda>t. ''img'') ex_pullRes load_init ex_lost_sched = Some s \<and>
       ls_pulls s ''img'' = 1 \<and>
       ls_pc s 0 = LI_Done (Some (OSError ''exit status 1'')) \<and>
       ls_pc s 1 = LI_Sleeping \<and> ls_lock s = None \<and>
       load_step (\<lambda>t. ''img'') ex_pullRes s 0 = None \<and>
       load_step (\<lambda>t. ''img'') ex_pullRes s 1 = None"
  by (simp add: ex_lost_sched_def load_event_def load_step_def Let_def load_init_def
      wakeAll_def ex_pullRes_def)

subsection \<open>Wait protocol\<close>

text \<open>
  When the waiter returns from a wait for a key that is not in the target's scope
  and that the target never stores, it returns \<open>("", false)\<close>: not found, and no
  error value exists in its result type.
\<close>

lemma never_stored_event:
  assumes "never_stored key s" and "wait_event key s ev = Some s1"
  shows "never_stored key s1"
proof (cases ev)
  case StepWaiter
  with assms show ?thesis
    by (cases "ws_pc s")
      (auto simp: wait_event_def waiter_step_def never_stored_def localVars_QueryVar_def
        split: if_splits)
next
  case StepTarget
  show ?thesis
  proof (cases "ws_target s")
    case Nil
    with assms StepTarget show ?thesis by (simp add: wait_event_def target_step_def)
  next
    case (Cons a rest)
    with assms StepTarget show ?thesis
      by (cases a)
        (auto simp: wait_event_def target_step_def never_stored_def wake_def split: if_splits)
  qed
next
  case OtherNotify
  with assms show ?thesis
    by (auto simp: wait_event_def never_stored_def wake_def split: if_splits)
qed

lemma wait_not_found:
  assumes "vars key = None" and "\<forall>v. UpdateVar key v \<notin> set todo"
    and "wait_run key (wait_init vars todo) sched = Some s"
    and "ws_pc s = XW_Done val exists"
  shows "val = '''' \<and> \<not> exists"
proof -
  have run: "never_stored key s0 \<Longrightarrow> wait_run key s0 sched = Some s1 \<Longrightarrow> never_stored key s1"
    for s0 s1
  proof (induction sched arbitrary: s0)
    case Nil
    then show ?case by simp
  next
    case (Cons ev evs)
    then show ?case by (auto split: option.splits dest: never_stored_event)
  qed
  have "never_stored key (wait_init vars todo)"
    using assms(1,2) by (simp add: never_stored_def wait_init_def)
  from run [OF this assms(3)] assms(4) show ?thesis
    by (simp add: never_stored_def)
qed

text \<open>
  A waiter that is awake (before \<open>Lock()\<close>, or notified inside \<open>Wait()\<close>) when
  \<open>Stopped\<close> is set returns within three steps of its own.
\<close>

lemma wait_returns_when_awake:
  assumes "ws_Stopped s" and "ws_pc s = XW_Lock \<or> ws_pc s = XW_Woken" and "\<not> ws_locked s"
  shows "\<exists>s1. wait_run key s [StepWaiter, StepWaiter, StepWaiter] = Some s1 \<and>
               ws_pc s1 = XW_Done (ws_val s) (ws_exists s)"
  using assms by (auto simp: wait_event_def waiter_step_def)

text \<open>
  C2. The claim is that the wait ends once the target's \<open>Stopped\<close> flag is set. The
  target instance \<open>ex_target\<close> never publishes \<open>ip\<close>; under the schedule
  \<open>ex_wait_sched\<close> the waiter has tested \<open>Stopped\<close> (false) and queried the key (absent)
  when the target sets \<open>Stopped\<close> and broadcasts, and it calls \<open>Wait()\<close> after the
  broadcasts. In the state reached \<open>Stopped\<close> is set, the target has finished, and the
  waiter sleeps on the condition variable: neither has a step, and the lookup has
  not returned.
\<close>

theorem wait_lost_wakeup:
  "\<exists>s. wait_run ''ip'' (wait_init Map.empty ex_target) ex_wait_sched = Some s \<and>
       ws_Stopped s \<and> ws_target s = [] \<and> ws_pc s = XW_Sleeping \<and>
       waiter_step ''ip'' s = None \<and> target_step s = None"
  by (simp add: wait_init_def ex_target_def ex_wait_sched_def wait_event_def waiter_step_def
      target_step_def wake_def localVars_QueryVar_def)

end
